theory Spec2Isabelle
  imports Complex_Main "HOL-Library.AList" "HOL-Library.Multiset"
begin

section \<open>Host values\<close>

text \<open>
  The validators take values of type \<open>unknown\<close>. A host number is a double: a finite
  value (a rational here), NaN or one of the two infinities. A string is a list of code
  units; the characters of this model are the code units below 256. An object is its
  list of own properties in insertion order, tagged with what \<open>Object.getPrototypeOf\<close>
  returns for it; properties inherited from a prototype are not modelled. A \<open>Date\<close>
  carries its time value, \<open>None\<close> standing for the NaN of an invalid date.
\<close>

datatype jsnum = Fin rat | NaN | PosInfinity | NegInfinity

datatype proto = ObjectPrototype | NullPrototype | OtherPrototype

datatype jsval =
    JUndefined
  | JNull
  | JBool bool
  | JNum jsnum
  | JStr string
  | JArr "jsval list"
  | JObj proto "(string \<times> jsval) list"
  | JDate "int option"
  | JFun

type_synonym props = "(string \<times> jsval) list"

text \<open>\<open>key in value\<close> and \<open>value.key\<close> on a value that \<open>isObject\<close> accepted.\<close>

fun hasProp :: "string \<Rightarrow> jsval \<Rightarrow> bool" where
  "hasProp k (JObj p ps) = (map_of ps k \<noteq> None)"
| "hasProp k v = False"

fun getProp :: "jsval \<Rightarrow> string \<Rightarrow> jsval" where
  "getProp (JObj p ps) k = (case map_of ps k of Some v \<Rightarrow> v | None \<Rightarrow> JUndefined)"
| "getProp v k = JUndefined"

text \<open>
  \<open>String.prototype.trim\<close> removes white space and line terminators from both ends;
  \<open>\s\<close> in a regular expression is the same set. These are its members below 256.
\<close>

definition isWhiteSpace :: "char \<Rightarrow> bool" where
  "isWhiteSpace c \<longleftrightarrow>
     c \<in> {CHR 0x09, CHR 0x0A, CHR 0x0B, CHR 0x0C, CHR 0x0D, CHR 0x20, CHR 0xA0}"

definition trim :: "string \<Rightarrow> string" where
  "trim s = rev (dropWhile isWhiteSpace (rev (dropWhile isWhiteSpace s)))"

definition isDigit :: "char \<Rightarrow> bool" where
  "isDigit c \<longleftrightarrow> c \<in> set ''0123456789''"

section \<open>Basic type predicates (detailed-type-guards.ts)\<close>

fun isString :: "jsval \<Rightarrow> bool" where
  "isString (JStr s) = True"
| "isString v = False"

fun isNonEmptyString :: "jsval \<Rightarrow> bool" where
  "isNonEmptyString (JStr s) = (length (trim s) > 0)"
| "isNonEmptyString v = False"

fun isNumber :: "jsval \<Rightarrow> bool" where
  "isNumber (JNum n) = (n \<noteq> NaN \<and> n \<noteq> PosInfinity \<and> n \<noteq> NegInfinity)"
| "isNumber v = False"

text \<open>\<open>value > 0\<close> and \<open>Number.isInteger(value)\<close> on a number.\<close>

fun greaterThanZero :: "jsval \<Rightarrow> bool" where
  "greaterThanZero (JNum (Fin q)) = (q > 0)"
| "greaterThanZero (JNum PosInfinity) = True"
| "greaterThanZero v = False"

fun numberIsInteger :: "jsval \<Rightarrow> bool" where
  "numberIsInteger (JNum (Fin q)) = (of_int \<lfloor>q\<rfloor> = q)"
| "numberIsInteger v = False"

definition isPositiveNumber :: "jsval \<Rightarrow> bool" where
  "isPositiveNumber v \<longleftrightarrow> isNumber v \<and> greaterThanZero v"

definition isInteger :: "jsval \<Rightarrow> bool" where
  "isInteger v \<longleftrightarrow> isNumber v \<and> numberIsInteger v"

fun isBoolean :: "jsval \<Rightarrow> bool" where
  "isBoolean (JBool b) = True"
| "isBoolean v = False"

fun isArray :: "jsval \<Rightarrow> bool" where
  "isArray (JArr xs) = True"
| "isArray v = False"

fun isObject :: "jsval \<Rightarrow> bool" where
  "isObject (JObj p ps) = True"
| "isObject (JDate t) = True"
| "isObject v = False"

fun isPlainObject :: "jsval \<Rightarrow> bool" where
  "isPlainObject (JObj p ps) = (p = NullPrototype \<or> p = ObjectPrototype)"
| "isPlainObject v = False"

fun isDate :: "jsval \<Rightarrow> bool" where
  "isDate (JDate t) = (t \<noteq> None)"
| "isDate v = False"

fun every :: "(jsval \<Rightarrow> bool) \<Rightarrow> jsval \<Rightarrow> bool" where
  "every P (JArr xs) = list_all P xs"
| "every P v = False"

text \<open>The \<open>isNumber\<close> of the basic examples (type-guards-examples.ts): no \<open>isFinite\<close>.\<close>

fun isNumber_basic :: "jsval \<Rightarrow> bool" where
  "isNumber_basic (JNum n) = (n \<noteq> NaN)"
| "isNumber_basic v = False"


section \<open>Object shapes (detailed-type-guards.ts)\<close>

text \<open>
  \<open>/^[^\s@]+@[^\s@]+\.[^\s@]+$/\<close>: a non-empty run without white space or \<open>@\<close>, an
  \<open>@\<close>, and a rest without white space or \<open>@\<close> that has a dot which is neither its
  first nor its last character.
\<close>

definition emailChar :: "char \<Rightarrow> bool" where
  "emailChar c \<longleftrightarrow> \<not> isWhiteSpace c \<and> c \<noteq> CHR ''@''"

definition isValidEmail :: "string \<Rightarrow> bool" where
  "isValidEmail email \<longleftrightarrow>
     (let local = takeWhile emailChar email; after = dropWhile emailChar email
      in local \<noteq> [] \<and>
         (case after of
            [] \<Rightarrow> False
          | c # domain \<Rightarrow>
              c = CHR ''@'' \<and> list_all emailChar domain \<and>
              CHR ''.'' \<in> set (tl (butlast domain))))"

text \<open>
  \<open>/^\+?[\d\s\-\(\)]+$/\<close> and at least ten digits left by \<open>phone.replace(/\D/g, '')\<close>.
\<close>

definition phoneChar :: "char \<Rightarrow> bool" where
  "phoneChar c \<longleftrightarrow> isDigit c \<or> isWhiteSpace c \<or> c \<in> set ''-()''"

definition isValidPhoneNumber :: "string \<Rightarrow> bool" where
  "isValidPhoneNumber phone \<longleftrightarrow>
     (let body = (case phone of c # cs \<Rightarrow> if c = CHR ''+'' then cs else phone | [] \<Rightarrow> phone)
      in body \<noteq> [] \<and> list_all phoneChar body) \<and>
     length (filter isDigit phone) \<ge> 10"

definition isAddress :: "jsval \<Rightarrow> bool" where
  "isAddress v \<longleftrightarrow>
     isObject v \<and>
     hasProp ''street'' v \<and> isNonEmptyString (getProp v ''street'') \<and>
     hasProp ''city'' v \<and> isNonEmptyString (getProp v ''city'') \<and>
     hasProp ''state'' v \<and> isNonEmptyString (getProp v ''state'') \<and>
     hasProp ''zipCode'' v \<and> isNonEmptyString (getProp v ''zipCode'') \<and>
     hasProp ''country'' v \<and> isNonEmptyString (getProp v ''country'')"

fun stringIs :: "(string \<Rightarrow> bool) \<Rightarrow> jsval \<Rightarrow> bool" where
  "stringIs P (JStr s) = P s"
| "stringIs P v = False"

definition isContactInfo :: "jsval \<Rightarrow> bool" where
  "isContactInfo v \<longleftrightarrow>
     (if \<not> isObject v then False
      else if \<not> hasProp ''email'' v \<or> \<not> isString (getProp v ''email'') \<or>
              \<not> stringIs isValidEmail (getProp v ''email'') then False
      else if hasProp ''phone'' v \<and>
              (\<not> isString (getProp v ''phone'') \<or>
               \<not> stringIs isValidPhoneNumber (getProp v ''phone'')) then False
      else if hasProp ''address'' v \<and> \<not> isAddress (getProp v ''address'') then False
      else True)"

definition isUser :: "jsval \<Rightarrow> bool" where
  "isUser v \<longleftrightarrow>
     (if \<not> isObject v then False
      else
        hasProp ''id'' v \<and> isNonEmptyString (getProp v ''id'') \<and>
        hasProp ''name'' v \<and> isNonEmptyString (getProp v ''name'') \<and>
        hasProp ''contact'' v \<and> isContactInfo (getProp v ''contact'') \<and>
        hasProp ''age'' v \<and> isPositiveNumber (getProp v ''age'') \<and>
          isInteger (getProp v ''age'') \<and>
        hasProp ''isActive'' v \<and> isBoolean (getProp v ''isActive'') \<and>
        hasProp ''tags'' v \<and> isArray (getProp v ''tags'') \<and>
          every isString (getProp v ''tags'') \<and>
        hasProp ''createdAt'' v \<and> isDate (getProp v ''createdAt'') \<and>
        hasProp ''updatedAt'' v \<and> isDate (getProp v ''updatedAt'') \<and>
        (\<not> hasProp ''metadata'' v \<or> isPlainObject (getProp v ''metadata'')))"

record simpleValidationError =
  field :: string
  message :: string
  value' :: jsval

record validationResult =
  isValid :: bool
  data :: "jsval option"
  errors :: "simpleValidationError list"

text \<open>One \<open>if (...) errors.push({...})\<close> of \<open>validateUser\<close>.\<close>

definition pushIf :: "bool \<Rightarrow> string \<Rightarrow> string \<Rightarrow> jsval \<Rightarrow> simpleValidationError list" where
  "pushIf failed f m v =
     (if failed then [\<lparr>field = f, message = m, value' = v\<rparr>] else [])"

definition valueOrUndefined :: "string \<Rightarrow> jsval \<Rightarrow> jsval" where
  "valueOrUndefined k v = (if hasProp k v then getProp v k else JUndefined)"

definition validateUser :: "jsval \<Rightarrow> validationResult" where
  "validateUser v =
     (if \<not> isObject v then
        \<lparr>isValid = False, data = None,
         errors = [\<lparr>field = ''root'', message = ''Value is not an object'', value' = v\<rparr>]\<rparr>
      else
        let errs =
          pushIf (\<not> hasProp ''id'' v \<or> \<not> isNonEmptyString (getProp v ''id''))
            ''id'' ''Missing or invalid id field'' (valueOrUndefined ''id'' v) @
          pushIf (\<not> hasProp ''name'' v \<or> \<not> isNonEmptyString (getProp v ''name''))
            ''name'' ''Missing or invalid name field'' (valueOrUndefined ''name'' v) @
          pushIf (\<not> hasProp ''contact'' v \<or> \<not> isContactInfo (getProp v ''contact''))
            ''contact'' ''Missing or invalid contact field'' (valueOrUndefined ''contact'' v) @
          pushIf (\<not> hasProp ''age'' v \<or> \<not> isPositiveNumber (getProp v ''age'') \<or>
                  \<not> isInteger (getProp v ''age''))
            ''age'' ''Age must be a positive integer'' (valueOrUndefined ''age'' v) @
          pushIf (\<not> hasProp ''isActive'' v \<or> \<not> isBoolean (getProp v ''isActive''))
            ''isActive'' ''isActive must be a boolean'' (valueOrUndefined ''isActive'' v) @
          pushIf (\<not> hasProp ''tags'' v \<or> \<not> isArray (getProp v ''tags'') \<or>
                  \<not> every isString (getProp v ''tags''))
            ''tags'' ''tags must be an array of strings'' (valueOrUndefined ''tags'' v) @
          pushIf (\<not> hasProp ''createdAt'' v \<or> \<not> isDate (getProp v ''createdAt''))
            ''createdAt'' ''createdAt must be a valid Date'' (valueOrUndefined ''createdAt'' v) @
          pushIf (\<not> hasProp ''updatedAt'' v \<or> \<not> isDate (getProp v ''updatedAt''))
            ''updatedAt'' ''updatedAt must be a valid Date'' (valueOrUndefined ''updatedAt'' v)
        in if length errs = 0 then \<lparr>isValid = True, data = Some v, errors = []\<rparr>
           else \<lparr>isValid = False, data = None, errors = errs\<rparr>)"


section \<open>Results and events (detailed-type-guards.ts)\<close>

datatype appError =
    ValidationError string string string  \<comment> \<open>field, message, code\<close>
  | NetworkError int string string  \<comment> \<open>status, message, endpoint\<close>
  | BusinessError string string  \<comment> \<open>code, message\<close>

datatype 'a result = Success 'a | Failure appError

fun isSuccess :: "'a result \<Rightarrow> bool" where
  "isSuccess (Success d) = True"
| "isSuccess (Failure e) = False"

fun isValidationError :: "appError \<Rightarrow> bool" where
  "isValidationError (ValidationError f m c) = True"
| "isValidationError e = False"

text \<open>
  Entity objects live in the host's object store and are passed by reference: an
  address is an index into the list of allocated objects, each a plain object given
  by its own properties. Values nested in an entity are kept by value.
\<close>

type_synonym addr = nat

datatype apiEvent =
    UserCreated jsval addr string jsval  \<comment> \<open>timestamp, user, source, metadata\<close>
  | UserUpdated jsval string jsval addr string
      \<comment> \<open>timestamp, userId, changes, previousValues, updatedBy\<close>
  | UserDeleted jsval string string string addr
      \<comment> \<open>timestamp, userId, deletedBy, reason, backup\<close>

section \<open>The user service (express-type-guards.ts)\<close>

text \<open>
  \<open>users\<close> is a \<open>Map\<close>: keys in insertion order, \<open>set\<close> on a present key replaces
  the value in place, \<open>get\<close> finds the entry of the key.
\<close>

record userService =
  heap :: "props list"
  users :: "(string \<times> addr) list"
  events :: "apiEvent list"

definition emptyService :: userService where
  "emptyService = \<lparr>heap = [], users = [], events = []\<rparr>"

definition objectAt :: "props list \<Rightarrow> addr \<Rightarrow> jsval" where
  "objectAt h a = (if a < length h then JObj ObjectPrototype (h ! a) else JUndefined)"

text \<open>An assignment \<open>user.key = v\<close> made through a reference, by the service or a caller.\<close>

definition assignProp :: "addr \<Rightarrow> string \<Rightarrow> jsval \<Rightarrow> userService \<Rightarrow> userService" where
  "assignProp a k v s =
     (if a < length (heap s) then s\<lparr>heap := (heap s)[a := AList.update k v (heap s ! a)]\<rparr>
      else s)"

text \<open>Decimal rendering of a number in a template string.\<close>

definition digitChar :: "nat \<Rightarrow> char" where
  "digitChar d = ''0123456789'' ! (d mod 10)"

function showNat :: "nat \<Rightarrow> string" where
  "showNat n = (if n < 10 then [digitChar n] else showNat (n div 10) @ [digitChar (n mod 10)])"
  by pat_completeness auto
termination
  by (relation "measure id") auto

definition showInt :: "int \<Rightarrow> string" where
  "showInt i = (if i < 0 then CHR ''-'' # showNat (nat (- i)) else showNat (nat i))"

text \<open>
  The own enumerable properties that an object spread \<open>{...v}\<close> copies, and the copying
  itself: a later property replaces an earlier one of the same key in place.
\<close>

fun ownProps :: "jsval \<Rightarrow> props" where
  "ownProps (JObj p ps) = ps"
| "ownProps (JArr xs) = map (\<lambda>(i, x). (showNat i, x)) (enumerate 0 xs)"
| "ownProps (JStr cs) = map (\<lambda>(i, c). (showNat i, JStr [c])) (enumerate 0 cs)"
| "ownProps v = []"

fun assign :: "props \<Rightarrow> props \<Rightarrow> props" where
  "assign acc [] = acc"
| "assign acc ((k, v) # ps) = assign (AList.update k v acc) ps"

text \<open>
  What one call reads from the clock and the random generator, in program order.
  \<open>generateId\<close> joins \<open>Date.now()\<close> and the nine characters cut from
  \<open>Math.random().toString(36)\<close>.
\<close>

definition generateId :: "int \<Rightarrow> string \<Rightarrow> string" where
  "generateId now rnd = ''user_'' @ showInt now @ ''_'' @ rnd"

record createReads =
  idNow1 :: int
  idRandom1 :: string
  dateNow1 :: int
  dateNow2 :: int
  idNow2 :: int
  idRandom2 :: string
  createdNow :: int
  updatedNow :: int
  eventNow :: int

text \<open>
  The check of the \<open>validateUserCreation\<close> middleware on a request body: \<open>isUser\<close> of
  the body spread over a placeholder id and two fresh dates.
\<close>

definition validUserCreation :: "int \<Rightarrow> int \<Rightarrow> jsval \<Rightarrow> bool" where
  "validUserCreation now1 now2 body \<longleftrightarrow>
     isUser (JObj ObjectPrototype
       (assign [(''id'', JStr ''temp''), (''createdAt'', JDate (Some now1)),
                (''updatedAt'', JDate (Some now2))] (ownProps body)))"

text \<open>
  The object literal that \<open>createUser\<close> hands to \<open>validateUser\<close>. When validation
  succeeds that same object is given its final \<open>id\<close> and dates and stored; it enters the
  object store then, at the next free address. Nothing in the bodies modelled here
  throws, so the \<open>catch\<close> branches of the service have no counterpart.
\<close>

definition userLiteral :: "createReads \<Rightarrow> jsval \<Rightarrow> props" where
  "userLiteral r userData =
     assign [(''id'', JStr (generateId (idNow1 r) (idRandom1 r))),
             (''createdAt'', JDate (Some (dateNow1 r))),
             (''updatedAt'', JDate (Some (dateNow2 r)))] (ownProps userData)"

definition createUser :: "createReads \<Rightarrow> jsval \<Rightarrow> userService \<Rightarrow> addr result \<times> userService" where
  "createUser r userData s =
     (let obj = userLiteral r userData;
          validation = validateUser (JObj ObjectPrototype obj)
      in if \<not> isValid validation then
           (Failure (ValidationError ''userData'' ''Invalid user data'' ''INVALID_USER_DATA''), s)
         else
           let user = length (heap s);
               newId = generateId (idNow2 r) (idRandom2 r);
               obj1 = AList.update ''id'' (JStr newId) obj;
               obj2 = AList.update ''createdAt'' (JDate (Some (createdNow r))) obj1;
               obj3 = AList.update ''updatedAt'' (JDate (Some (updatedNow r))) obj2;
               event = UserCreated (JDate (Some (eventNow r))) user ''admin''
                         (JObj ObjectPrototype [(''createdVia'', JStr ''api'')])
           in (Success user,
               s\<lparr>heap := heap s @ [obj3],
                 users := AList.update newId user (users s),
                 events := events s @ [event]\<rparr>))"

definition getUserById :: "string \<Rightarrow> userService \<Rightarrow> addr result" where
  "getUserById ident s =
     (if \<not> isNonEmptyString (JStr ident) then
        Failure (ValidationError ''id'' ''User ID must be a non-empty string'' ''INVALID_ID'')
      else
        case map_of (users s) ident of
          None \<Rightarrow> Failure (BusinessError ''NOT_FOUND'' (''User with ID '' @ ident @ '' not found''))
        | Some user \<Rightarrow>
            if \<not> isUser (objectAt (heap s) user) then
              Failure (BusinessError ''DATA_CORRUPTION'' ''Stored user data is corrupted'')
            else Success user)"

text \<open>\<open>typeof updates !== 'object' || updates === null\<close>.\<close>

fun notAnObject :: "jsval \<Rightarrow> bool" where
  "notAnObject (JObj p ps) = False"
| "notAnObject (JArr xs) = False"
| "notAnObject (JDate t) = False"
| "notAnObject v = True"

record updateReads =
  updatedAtNow :: int
  updateEventNow :: int

text \<open>The object literal \<open>updatedUserData\<close> of \<open>updateUser\<close>.\<close>

definition updatedUserData :: "updateReads \<Rightarrow> jsval \<Rightarrow> jsval \<Rightarrow> props" where
  "updatedUserData r existing updates =
     (let merged = assign (assign [] (ownProps existing)) (ownProps updates);
          merged1 = AList.update ''id'' (getProp existing ''id'') merged;
          merged2 = AList.update ''createdAt'' (getProp existing ''createdAt'') merged1
      in AList.update ''updatedAt'' (JDate (Some (updatedAtNow r))) merged2)"

definition updateUser ::
    "updateReads \<Rightarrow> string \<Rightarrow> jsval \<Rightarrow> userService \<Rightarrow> addr result \<times> userService" where
  "updateUser r ident updates s =
     (case getUserById ident s of
        Failure e \<Rightarrow> (Failure e, s)
      | Success existingUser \<Rightarrow>
          if notAnObject updates then
            (Failure (ValidationError ''updates'' ''Updates must be an object'' ''INVALID_UPDATES''), s)
          else
            let obj = updatedUserData r (objectAt (heap s) existingUser) updates;
                validation = validateUser (JObj ObjectPrototype obj)
            in if \<not> isValid validation then
                 (Failure (ValidationError ''userData'' ''Updated user data is invalid''
                             ''INVALID_UPDATED_DATA''), s)
               else
                 let updatedUser = length (heap s);
                     event = UserUpdated (JDate (Some (updateEventNow r))) ident updates
                               existingUser ''api''
                 in (Success updatedUser,
                     s\<lparr>heap := heap s @ [obj],
                       users := AList.update ident updatedUser (users s),
                       events := events s @ [event]\<rparr>))"

definition deleteUser :: "int \<Rightarrow> string \<Rightarrow> userService \<Rightarrow> string result \<times> userService" where
  "deleteUser now ident s =
     (case getUserById ident s of
        Failure e \<Rightarrow> (Failure e, s)
      | Success user \<Rightarrow>
          let event = UserDeleted (JDate (Some now)) ident ''api'' ''API request'' user
          in (Success (''User '' @ ident @ '' deleted successfully''),
              s\<lparr>users := AList.delete ident (users s), events := events s @ [event]\<rparr>))"


subsection \<open>Listing with pagination\<close>

text \<open>\<open>options.page || 1\<close>: \<open>undefined\<close>, \<open>0\<close> and \<open>NaN\<close> are falsy.\<close>

fun numberOr :: "jsnum option \<Rightarrow> jsnum \<Rightarrow> jsnum" where
  "numberOr None d = d"
| "numberOr (Some NaN) d = d"
| "numberOr (Some (Fin q)) d = (if q = 0 then d else Fin q)"
| "numberOr (Some n) d = n"

fun stringOr :: "string option \<Rightarrow> string \<Rightarrow> string" where
  "stringOr None d = d"
| "stringOr (Some k) d = (if k = [] then d else k)"

datatype sortOrder = Asc | Desc

fun sortOrderOr :: "sortOrder option \<Rightarrow> sortOrder \<Rightarrow> sortOrder" where
  "sortOrderOr None d = d"
| "sortOrderOr (Some x) d = x"

text \<open>
  Arithmetic on numbers rounds its exact result to the nearest double, ties to the even
  significand: 53 significant bits, exponents from \<open>-1022\<close> (below it the spacing stays
  \<open>2^-1074\<close>) to \<open>1023\<close>, and a result that rounds to \<open>2^1024\<close> or more is an infinity.
  \<open>exponentOf q\<close> is the \<open>e\<close> with \<open>2^e \<le> q < 2^(e+1)\<close> for a positive \<open>q\<close>. The sign of a
  zero is not kept.
\<close>

function floorLog2 :: "nat \<Rightarrow> nat" where
  "floorLog2 n = (if n < 2 then 0 else Suc (floorLog2 (n div 2)))"
  by pat_completeness auto
termination
  by (relation "measure id") auto

definition ceilLog2 :: "nat \<Rightarrow> nat" where
  "ceilLog2 n = (if n \<le> 1 then 0 else Suc (floorLog2 (n - 1)))"

definition pow2 :: "int \<Rightarrow> rat" where
  "pow2 i = (if 0 \<le> i then 2 ^ nat i else 1 / 2 ^ nat (- i))"

definition exponentOf :: "rat \<Rightarrow> int" where
  "exponentOf q =
     (if 1 \<le> q then int (floorLog2 (nat \<lfloor>q\<rfloor>)) else - int (ceilLog2 (nat \<lceil>1 / q\<rceil>)))"

definition roundHalfEven :: "rat \<Rightarrow> int" where
  "roundHalfEven x =
     (let f = \<lfloor>x\<rfloor>; r = x - of_int f
      in if r < 1 / 2 then f else if 1 / 2 < r then f + 1 else if even f then f else f + 1)"

definition toDouble :: "rat \<Rightarrow> jsnum" where
  "toDouble q =
     (if q = 0 then Fin 0
      else
        let a = \<bar>q\<bar>;
            e = max (exponentOf a) (- 1022);
            ulp = pow2 (e - 52);
            r = of_int (roundHalfEven (a / ulp)) * ulp
        in if pow2 1024 \<le> r then (if 0 < q then PosInfinity else NegInfinity)
           else Fin (if 0 < q then r else - r))"

fun numNeg :: "jsnum \<Rightarrow> jsnum" where
  "numNeg (Fin q) = Fin (- q)"
| "numNeg NaN = NaN"
| "numNeg PosInfinity = NegInfinity"
| "numNeg NegInfinity = PosInfinity"

fun numAdd :: "jsnum \<Rightarrow> jsnum \<Rightarrow> jsnum" where
  "numAdd (Fin a) (Fin b) = toDouble (a + b)"
| "numAdd NaN b = NaN"
| "numAdd a NaN = NaN"
| "numAdd PosInfinity NegInfinity = NaN"
| "numAdd NegInfinity PosInfinity = NaN"
| "numAdd PosInfinity b = PosInfinity"
| "numAdd NegInfinity b = NegInfinity"
| "numAdd a PosInfinity = PosInfinity"
| "numAdd a NegInfinity = NegInfinity"

definition numSub :: "jsnum \<Rightarrow> jsnum \<Rightarrow> jsnum" where
  "numSub a b = numAdd a (numNeg b)"

fun signOf :: "jsnum \<Rightarrow> int" where
  "signOf (Fin q) = sgn \<lfloor>q\<rfloor> + (if 0 < q \<and> q < 1 then 1 else 0)"
| "signOf PosInfinity = 1"
| "signOf NegInfinity = - 1"
| "signOf NaN = 0"

fun numMul :: "jsnum \<Rightarrow> jsnum \<Rightarrow> jsnum" where
  "numMul (Fin a) (Fin b) = toDouble (a * b)"
| "numMul NaN b = NaN"
| "numMul a NaN = NaN"
| "numMul a b =
     (if signOf a * signOf b = 0 then NaN
      else if 0 < signOf a * signOf b then PosInfinity else NegInfinity)"

text \<open>
  The host's less-than on two property values. It converts the left operand to a
  primitive, then the right one, and a conversion can throw (an object whose
  \<open>toString\<close> and \<open>valueOf\<close> give no primitive). Conversion and comparison belong to the
  host and are parameters: \<open>convError v = Some m\<close> when converting \<open>v\<close> throws an error
  whose message the \<open>catch\<close> of the service reports as \<open>m\<close>, and \<open>lt a b\<close> is the result
  for two operands that convert. Both are taken as functions of the values alone.
\<close>

record host =
  convError :: "jsval \<Rightarrow> string option"
  lt :: "jsval \<Rightarrow> jsval \<Rightarrow> bool"

definition lessThan' :: "host \<Rightarrow> jsval \<Rightarrow> jsval \<Rightarrow> string + bool" where
  "lessThan' H a b =
     (case convError H a of
        Some m \<Rightarrow> Inl m
      | None \<Rightarrow> (case convError H b of Some m \<Rightarrow> Inl m | None \<Rightarrow> Inr (lt H a b)))"

definition greaterThan' :: "host \<Rightarrow> jsval \<Rightarrow> jsval \<Rightarrow> string + bool" where
  "greaterThan' H a b =
     (case convError H a of
        Some m \<Rightarrow> Inl m
      | None \<Rightarrow> (case convError H b of Some m \<Rightarrow> Inl m | None \<Rightarrow> Inr (lt H b a)))"

text \<open>The comparator handed to \<open>sort\<close>; \<open>Inl m\<close> when one of its comparisons throws.\<close>

definition compareUsers ::
    "host \<Rightarrow> props list \<Rightarrow> string \<Rightarrow> sortOrder \<Rightarrow> addr \<Rightarrow> addr \<Rightarrow> string + int" where
  "compareUsers H h sortBy order a b =
     (let aValue = getProp (objectAt h a) sortBy;
          bValue = getProp (objectAt h b) sortBy;
          comparison0 = 0
      in case lessThan' H aValue bValue of
           Inl m \<Rightarrow> Inl m
         | Inr isLess \<Rightarrow>
             let comparison1 = (if isLess then - 1 else comparison0)
             in case greaterThan' H aValue bValue of
                  Inl m \<Rightarrow> Inl m
                | Inr isGreater \<Rightarrow>
                    let comparison = (if isGreater then 1 else comparison1)
                    in Inr (if order = Desc then - comparison else comparison))"

text \<open>
  \<open>Array.prototype.sort\<close> is stable: an insertion sort that keeps ties in order. An
  error thrown by the comparator ends the sort. Which pairs the host's sort compares is
  its own choice; it compares every element of a list of two or more, as this one does.
\<close>

fun insertBy :: "('a \<Rightarrow> 'a \<Rightarrow> string + int) \<Rightarrow> 'a \<Rightarrow> 'a list \<Rightarrow> string + 'a list" where
  "insertBy cmp x [] = Inr [x]"
| "insertBy cmp x (y # ys) =
     (case cmp x y of
        Inl m \<Rightarrow> Inl m
      | Inr c \<Rightarrow>
          if c \<le> 0 then Inr (x # y # ys)
          else (case insertBy cmp x ys of Inl m \<Rightarrow> Inl m | Inr zs \<Rightarrow> Inr (y # zs)))"

fun sortBy' :: "('a \<Rightarrow> 'a \<Rightarrow> string + int) \<Rightarrow> 'a list \<Rightarrow> string + 'a list" where
  "sortBy' cmp [] = Inr []"
| "sortBy' cmp (x # xs) =
     (case sortBy' cmp xs of Inl m \<Rightarrow> Inl m | Inr ys \<Rightarrow> insertBy cmp x ys)"

text \<open>
  \<open>Array.prototype.slice(start, end)\<close>: each argument is truncated towards zero (NaN is
  0), a negative one counts from the end, and both are clamped to the length.
\<close>

definition toIntegerOrInfinity :: "rat \<Rightarrow> int" where
  "toIntegerOrInfinity q = (if q < 0 then \<lceil>q\<rceil> else \<lfloor>q\<rfloor>)"

fun relativeIndex :: "nat \<Rightarrow> jsnum \<Rightarrow> nat" where
  "relativeIndex len (Fin q) =
     (let i = toIntegerOrInfinity q
      in if i < 0 then nat (max (int len + i) 0) else nat (min i (int len)))"
| "relativeIndex len NaN = 0"
| "relativeIndex len NegInfinity = 0"
| "relativeIndex len PosInfinity = len"

definition slice :: "'a list \<Rightarrow> jsnum \<Rightarrow> jsnum \<Rightarrow> 'a list" where
  "slice xs start end' =
     (let k = relativeIndex (length xs) start;
          final = relativeIndex (length xs) end'
      in take (final - k) (drop k xs))"

record userPage =
  users' :: "addr list"
  total' :: nat
  page :: jsnum
  limit :: jsnum

text \<open>
  \<open>getUsers\<close>: the values of the map that pass \<open>isUser\<close>, in the order of the map, are
  sorted and sliced. An error thrown while sorting is caught and returned as
  \<open>QUERY_ERROR\<close> with its message.
\<close>

definition getUsers ::
    "host \<Rightarrow> jsnum option \<Rightarrow> jsnum option \<Rightarrow> string option \<Rightarrow> sortOrder option \<Rightarrow>
     userService \<Rightarrow> userPage result" where
  "getUsers H optPage optLimit optSortBy optSortOrder s =
     (let page = numberOr optPage (Fin 1);
          limit = numberOr optLimit (Fin 10);
          sortBy = stringOr optSortBy ''createdAt'';
          sortOrder = sortOrderOr optSortOrder Desc
      in if \<not> isPositiveNumber (JNum page) \<or> \<not> isPositiveNumber (JNum limit) then
           Failure (ValidationError ''pagination'' ''Page and limit must be positive numbers''
                      ''INVALID_PAGINATION'')
         else
           let allUsers = filter (\<lambda>a. isUser (objectAt (heap s) a)) (map snd (users s))
           in case sortBy' (compareUsers H (heap s) sortBy sortOrder) allUsers of
                Inl m \<Rightarrow> Failure (BusinessError ''QUERY_ERROR'' m)
              | Inr sortedUsers \<Rightarrow>
                  let startIndex = numMul (numSub page (Fin 1)) limit;
                      endIndex = numAdd startIndex limit;
                      pageOfUsers = slice sortedUsers startIndex endIndex
                  in Success \<lparr>users' = pageOfUsers, total' = length sortedUsers,
                               page = page, limit = limit\<rparr>)"


section \<open>Sample data and tables used in the statements\<close>

text \<open>The required fields of \<open>validateUser\<close> and the message it pushes for each.\<close>

definition requiredFields :: "string list" where
  "requiredFields =
     [''id'', ''name'', ''contact'', ''age'', ''isActive'', ''tags'', ''createdAt'', ''updatedAt'']"

definition fieldMessage :: "string \<Rightarrow> string" where
  "fieldMessage F =
     (if F = ''id'' then ''Missing or invalid id field''
      else if F = ''name'' then ''Missing or invalid name field''
      else if F = ''contact'' then ''Missing or invalid contact field''
      else if F = ''age'' then ''Age must be a positive integer''
      else if F = ''isActive'' then ''isActive must be a boolean''
      else if F = ''tags'' then ''tags must be an array of strings''
      else if F = ''createdAt'' then ''createdAt must be a valid Date''
      else ''updatedAt must be a valid Date'')"

text \<open>Clock and random readings, an input and a stored entity for the closed instances.\<close>

definition sampleReads :: createReads where
  "sampleReads = \<lparr>idNow1 = 1000, idRandom1 = ''k3j9x0abc'', dateNow1 = 1000, dateNow2 = 1000,
     idNow2 = 1000, idRandom2 = ''q7w1e5rty'', createdNow = 1000, updatedNow = 1001,
     eventNow = 1001\<rparr>"

definition sampleInput :: "jsval \<Rightarrow> jsval" where
  "sampleInput age = JObj ObjectPrototype
     [(''name'', JStr ''Ann''),
      (''contact'', JObj ObjectPrototype [(''email'', JStr ''a@b.com'')]),
      (''age'', age), (''isActive'', JBool True), (''tags'', JArr [JStr ''x''])]"

definition sampleUser :: props where
  "sampleUser =
     [(''id'', JStr ''user_1000_q7w1e5rty''), (''createdAt'', JDate (Some 1000)),
      (''updatedAt'', JDate (Some 1001)), (''name'', JStr ''Ann''),
      (''contact'', JObj ObjectPrototype [(''email'', JStr ''a@b.com'')]),
      (''age'', JNum (Fin 30)), (''isActive'', JBool True), (''tags'', JArr [JStr ''x''])]"

text \<open>
  The service after \<open>createUser\<close> of the sample input on the empty service, a partial
  update that also names \<open>id\<close> and \<open>createdAt\<close>, and an input with a \<open>metadata\<close> field.
\<close>

definition sampleService :: userService where
  "sampleService =
     \<lparr>heap = [sampleUser], users = [(''user_1000_q7w1e5rty'', 0)],
      events = [UserCreated (JDate (Some 1001)) 0 ''admin''
                  (JObj ObjectPrototype [(''createdVia'', JStr ''api'')])]\<rparr>"

definition sampleInputMetadata :: "jsval \<Rightarrow> jsval" where
  "sampleInputMetadata md = JObj ObjectPrototype
     [(''name'', JStr ''Ann''),
      (''contact'', JObj ObjectPrototype [(''email'', JStr ''a@b.com'')]),
      (''age'', JNum (Fin 30)), (''isActive'', JBool True), (''tags'', JArr [JStr ''x'']),
      (''metadata'', md)]"

definition sampleUpdates :: jsval where
  "sampleUpdates = JObj ObjectPrototype
     [(''age'', JNum (Fin 31)), (''id'', JStr ''user_other''), (''createdAt'', JDate (Some 5))]"

definition sampleUpdateReads :: updateReads where
  "sampleUpdateReads = \<lparr>updatedAtNow = 2000, updateEventNow = 2000\<rparr>"

text \<open>
  For the listing: the inputs \<open>getUsers\<close> refuses, the users of a result, and stores
  of three, of five and of two entities, the last two with a \<open>metadata\<close> whose own
  \<open>toString\<close> is not a function. The sample host throws on such an object, as
  \<open>OrdinaryToPrimitive\<close> does when \<open>valueOf\<close> is not an own function either, and
  compares dates by their time values.
\<close>

fun rejected :: "jsnum option \<Rightarrow> bool" where
  "rejected (Some (Fin q)) = (q < 0)"
| "rejected (Some PosInfinity) = True"
| "rejected (Some NegInfinity) = True"
| "rejected n = False"

fun pageUsers :: "userPage result \<Rightarrow> addr list" where
  "pageUsers (Success r) = users' r"
| "pageUsers (Failure e) = []"

definition sampleEntity :: "string \<Rightarrow> int \<Rightarrow> props" where
  "sampleEntity ident t =
     [(''id'', JStr ident), (''createdAt'', JDate (Some t)), (''updatedAt'', JDate (Some t)),
      (''name'', JStr ''Ann''),
      (''contact'', JObj ObjectPrototype [(''email'', JStr ''a@b.com'')]),
      (''age'', JNum (Fin 30)), (''isActive'', JBool True), (''tags'', JArr [JStr ''x''])]"

definition sampleStore :: userService where
  "sampleStore =
     \<lparr>heap = [sampleEntity ''user_1'' 1000, sampleEntity ''user_2'' 3000,
              sampleEntity ''user_3'' 2000],
      users = [(''user_1'', 0), (''user_2'', 1), (''user_3'', 2)],
      events = []\<rparr>"

definition sampleStore5 :: userService where
  "sampleStore5 =
     \<lparr>heap = [sampleEntity ''user_1'' 1000, sampleEntity ''user_2'' 2000,
              sampleEntity ''user_3'' 3000, sampleEntity ''user_4'' 4000,
              sampleEntity ''user_5'' 5000],
      users = [(''user_1'', 0), (''user_2'', 1), (''user_3'', 2), (''user_4'', 3),
               (''user_5'', 4)],
      events = []\<rparr>"

definition sampleStoreOpaque :: userService where
  "sampleStoreOpaque =
     \<lparr>heap = [sampleEntity ''user_1'' 1000 @
                [(''metadata'', JObj ObjectPrototype [(''toString'', JNum (Fin 1))])],
              sampleEntity ''user_2'' 2000 @
                [(''metadata'', JObj ObjectPrototype [(''toString'', JNum (Fin 1))])]],
      users = [(''user_1'', 0), (''user_2'', 1)],
      events = []\<rparr>"

fun sampleConvError :: "jsval \<Rightarrow> string option" where
  "sampleConvError (JObj p ps) =
     (case map_of ps ''toString'' of
        None \<Rightarrow> None
      | Some t \<Rightarrow>
          if t \<noteq> JFun \<and> map_of ps ''valueOf'' \<noteq> Some JFun
          then Some ''Cannot convert object to primitive value'' else None)"
| "sampleConvError v = None"

fun dateLess :: "jsval \<Rightarrow> jsval \<Rightarrow> bool" where
  "dateLess (JDate (Some a)) (JDate (Some b)) = (a < b)"
| "dateLess a b = False"

definition sampleHost :: host where
  "sampleHost = \<lparr>convError = sampleConvError, lt = dateLess\<rparr>"

lemmas validator_defs =
  validateUser_def pushIf_def valueOrUndefined_def isUser_def isContactInfo_def isAddress_def
  isValidEmail_def isValidPhoneNumber_def emailChar_def phoneChar_def isDigit_def
  isWhiteSpace_def trim_def isPositiveNumber_def isInteger_def

lemmas service_defs =
  createUser_def userLiteral_def getUserById_def updateUser_def updatedUserData_def
  deleteUser_def generateId_def showInt_def digitChar_def objectAt_def emptyService_def
  assignProp_def


section \<open>Properties of the predicates\<close>

lemma trim_whitespace: "\<forall>c\<in>set s. isWhiteSpace c \<Longrightarrow> trim s = []"
proof -
  assume "\<forall>c\<in>set s. isWhiteSpace c"
  then have "dropWhile isWhiteSpace s = []" by simp
  then show ?thesis unfolding trim_def by (simp only: rev.simps dropWhile.simps)
qed

text \<open>
  Claim C9, as amended. The \<open>isNumber\<close> of detailed-type-guards.ts, the one the
  validators and the service use, accepts exactly the finite numbers: it is false on
  NaN, on both infinities and on every value that is not a number. The \<open>isNumber\<close> of
  the basic examples accepts every number but NaN, the infinities included.
\<close>

theorem isNumber_characterisation:
  "(isNumber v \<longleftrightarrow> (\<exists>q. v = JNum (Fin q))) \<and>
   (isNumber_basic v \<longleftrightarrow> (\<exists>n. v = JNum n \<and> n \<noteq> NaN))"
proof (cases v)
  case (JNum n)
  then show ?thesis by (cases n) simp_all
qed simp_all

text \<open>
  Claim C9 as stated fails for the basic \<open>isNumber\<close>: it is true of \<open>Infinity\<close>.
\<close>

theorem isNumber_basic_Infinity:
  "isNumber_basic (JNum PosInfinity) \<and> \<not> isNumber (JNum PosInfinity)"
  by simp

text \<open>
  Claim C10. \<open>isNonEmptyString\<close> is false on every string made of white space only, and
  \<open>validateUser\<close> rejects an object whose \<open>name\<close> or \<open>id\<close> is such a string, with the
  entry of that field in its error list.
\<close>

theorem isNonEmptyString_whitespace:
  assumes "\<forall>c\<in>set s. isWhiteSpace c"
  shows "\<not> isNonEmptyString (JStr s) \<and>
     (\<forall>p ps k. k \<in> {''name'', ''id''} \<and> map_of ps k = Some (JStr s) \<longrightarrow>
        \<not> isValid (validateUser (JObj p ps)) \<and>
        \<lparr>field = k, message = ''Missing or invalid '' @ k @ '' field'', value' = JStr s\<rparr>
          \<in> set (errors (validateUser (JObj p ps))))"
proof -
  have blank: "\<not> isNonEmptyString (JStr s)"
    using assms by (simp add: trim_whitespace)
  have "\<not> isValid (validateUser (JObj p ps)) \<and>
        \<lparr>field = k, message = ''Missing or invalid '' @ k @ '' field'', value' = JStr s\<rparr>
          \<in> set (errors (validateUser (JObj p ps)))"
    if k: "k \<in> {''name'', ''id''}" and at: "map_of ps k = Some (JStr s)" for p ps k
  proof -
    let ?v = "JObj p ps"
    have bad: "\<not> isNonEmptyString (getProp ?v k)" and has: "hasProp k ?v"
      using blank at by simp_all
    from k consider "k = ''name''" | "k = ''id''" by auto
    then show ?thesis
    proof cases
      case 1
      with bad has at show ?thesis
        by (simp add: validateUser_def pushIf_def valueOrUndefined_def Let_def)
    next
      case 2
      with bad has at show ?thesis
        by (simp add: validateUser_def pushIf_def valueOrUndefined_def Let_def)
    qed
  qed
  with blank show ?thesis by blast
qed

theorem isNonEmptyString_whitespace_witness:
  "list_all isWhiteSpace [CHR 0x20, CHR 0x09, CHR 0xA0] \<and>
   \<not> isNonEmptyString (JStr [CHR 0x20, CHR 0x09, CHR 0xA0]) \<and>
   \<not> isValid (validateUser (JObj ObjectPrototype [(''name'', JStr [CHR 0x20, CHR 0x09, CHR 0xA0])]))"
proof -
  have h: "\<forall>c\<in>set [CHR 0x20, CHR 0x09, CHR 0xA0]. isWhiteSpace c"
    by (simp add: isWhiteSpace_def)
  note w = isNonEmptyString_whitespace [OF h]
  from w [THEN conjunct1]
    w [THEN conjunct2, rule_format, of "''name''"
         "[(''name'', JStr [CHR 0x20, CHR 0x09, CHR 0xA0])]" ObjectPrototype]
  show ?thesis using h by simp
qed

section \<open>Properties of detailed validation\<close>

lemma map_of_assign:
  "distinct (map fst ps) \<Longrightarrow>
   map_of (assign acc ps) k = (case map_of ps k of Some v \<Rightarrow> Some v | None \<Rightarrow> map_of acc k)"
proof (induction ps arbitrary: acc)
  case Nil
  then show ?case by simp
next
  case (Cons a ps)
  obtain k' v' where a: "a = (k', v')" by (cases a)
  from Cons.prems a have fresh: "map_of ps k' = None" and d: "distinct (map fst ps)"
    by (auto simp: map_of_eq_None_iff)
  show ?case
    using Cons.IH [OF d, of "AList.update k' v' acc"] fresh
    by (auto simp: a update_conv' split: option.splits)
qed

lemma validateUser_valid_iff:
  "isValid (validateUser v) \<longleftrightarrow>
     isObject v \<and>
     hasProp ''id'' v \<and> isNonEmptyString (getProp v ''id'') \<and>
     hasProp ''name'' v \<and> isNonEmptyString (getProp v ''name'') \<and>
     hasProp ''contact'' v \<and> isContactInfo (getProp v ''contact'') \<and>
     hasProp ''age'' v \<and> isPositiveNumber (getProp v ''age'') \<and> isInteger (getProp v ''age'') \<and>
     hasProp ''isActive'' v \<and> isBoolean (getProp v ''isActive'') \<and>
     hasProp ''tags'' v \<and> isArray (getProp v ''tags'') \<and> every isString (getProp v ''tags'') \<and>
     hasProp ''createdAt'' v \<and> isDate (getProp v ''createdAt'') \<and>
     hasProp ''updatedAt'' v \<and> isDate (getProp v ''updatedAt'')"
  by (auto simp add: validateUser_def pushIf_def Let_def)

lemma validateUser_age_entry:
  assumes "isObject v"
    and "\<not> hasProp ''age'' v \<or> \<not> isPositiveNumber (getProp v ''age'') \<or> \<not> isInteger (getProp v ''age'')"
  shows "\<lparr>field = ''age'', message = ''Age must be a positive integer'',
           value' = valueOrUndefined ''age'' v\<rparr> \<in> set (errors (validateUser v))"
  using assms by (simp add: validateUser_def pushIf_def Let_def)

lemma hasProp_delete:
  "hasProp k (JObj p (AList.delete F ps)) = (k \<noteq> F \<and> hasProp k (JObj p ps))"
  by (simp add: delete_conv')

lemma getProp_delete:
  "getProp (JObj p (AList.delete F ps)) k = (if k = F then JUndefined else getProp (JObj p ps) k)"
  by (simp add: delete_conv')

lemma fieldMessage_missing:
  "F \<in> set requiredFields \<Longrightarrow>
   (\<exists>w. fieldMessage F = ''Missing or invalid '' @ w) \<longleftrightarrow> F \<in> {''id'', ''name'', ''contact''}"
  by (auto simp: requiredFields_def fieldMessage_def)

lemma validateUser_errors:
  "isObject v \<Longrightarrow>
   \<not> hasProp ''id'' v \<or> \<not> isNonEmptyString (getProp v ''id'') \<longleftrightarrow> b1 \<Longrightarrow>
   \<not> hasProp ''name'' v \<or> \<not> isNonEmptyString (getProp v ''name'') \<longleftrightarrow> b2 \<Longrightarrow>
   \<not> hasProp ''contact'' v \<or> \<not> isContactInfo (getProp v ''contact'') \<longleftrightarrow> b3 \<Longrightarrow>
   \<not> hasProp ''age'' v \<or> \<not> isPositiveNumber (getProp v ''age'') \<or>
     \<not> isInteger (getProp v ''age'') \<longleftrightarrow> b4 \<Longrightarrow>
   \<not> hasProp ''isActive'' v \<or> \<not> isBoolean (getProp v ''isActive'') \<longleftrightarrow> b5 \<Longrightarrow>
   \<not> hasProp ''tags'' v \<or> \<not> isArray (getProp v ''tags'') \<or>
     \<not> every isString (getProp v ''tags'') \<longleftrightarrow> b6 \<Longrightarrow>
   \<not> hasProp ''createdAt'' v \<or> \<not> isDate (getProp v ''createdAt'') \<longleftrightarrow> b7 \<Longrightarrow>
   \<not> hasProp ''updatedAt'' v \<or> \<not> isDate (getProp v ''updatedAt'') \<longleftrightarrow> b8 \<Longrightarrow>
   errors (validateUser v) =
     pushIf b1 ''id'' ''Missing or invalid id field'' (valueOrUndefined ''id'' v) @
     pushIf b2 ''name'' ''Missing or invalid name field'' (valueOrUndefined ''name'' v) @
     pushIf b3 ''contact'' ''Missing or invalid contact field'' (valueOrUndefined ''contact'' v) @
     pushIf b4 ''age'' ''Age must be a positive integer'' (valueOrUndefined ''age'' v) @
     pushIf b5 ''isActive'' ''isActive must be a boolean'' (valueOrUndefined ''isActive'' v) @
     pushIf b6 ''tags'' ''tags must be an array of strings'' (valueOrUndefined ''tags'' v) @
     pushIf b7 ''createdAt'' ''createdAt must be a valid Date'' (valueOrUndefined ''createdAt'' v) @
     pushIf b8 ''updatedAt'' ''updatedAt must be a valid Date'' (valueOrUndefined ''updatedAt'' v)"
  unfolding validateUser_def Let_def by (simp del: hasProp.simps getProp.simps)

lemma validateUser_invalid:
  "errors (validateUser v) \<noteq> [] \<Longrightarrow>
   validateUser v = \<lparr>isValid = False, data = None, errors = errors (validateUser v)\<rparr>"
  unfolding validateUser_def Let_def
  by (simp del: hasProp.simps getProp.simps split: if_splits)

text \<open>
  Claim C4, as amended. Take an object that \<open>validateUser\<close> accepts and remove one
  required field \<open>F\<close>: the result is invalid and its error list is the single entry of
  field \<open>F\<close>, with the undefined value. The message of that entry is the fixed message
  of the field, the one a wrongly typed value gets too; it starts with
  \<open>Missing or invalid\<close> for \<open>id\<close>, \<open>name\<close> and \<open>contact\<close> only.
\<close>

theorem validateUser_missing_field:
  assumes valid: "isValid (validateUser (JObj p ps))"
    and F: "F \<in> set requiredFields"
  shows "validateUser (JObj p (AList.delete F ps)) =
           \<lparr>isValid = False, data = None,
            errors = [\<lparr>field = F, message = fieldMessage F, value' = JUndefined\<rparr>]\<rparr> \<and>
         ((\<exists>w. fieldMessage F = ''Missing or invalid '' @ w) \<longleftrightarrow>
            F \<in> {''id'', ''name'', ''contact''})"
proof -
  let ?v = "JObj p ps" and ?w = "JObj p (AList.delete F ps)"
  note ok = valid [unfolded validateUser_valid_iff]
  note [simp del] = hasProp.simps getProp.simps
  have obj: "isObject ?w" by simp
  have b1: "\<not> hasProp ''id'' ?w \<or> \<not> isNonEmptyString (getProp ?w ''id'') \<longleftrightarrow> F = ''id''"
    using ok by (auto simp: hasProp_delete getProp_delete)
  have b2: "\<not> hasProp ''name'' ?w \<or> \<not> isNonEmptyString (getProp ?w ''name'') \<longleftrightarrow> F = ''name''"
    using ok by (auto simp: hasProp_delete getProp_delete)
  have b3: "\<not> hasProp ''contact'' ?w \<or> \<not> isContactInfo (getProp ?w ''contact'') \<longleftrightarrow> F = ''contact''"
    using ok by (auto simp: hasProp_delete getProp_delete)
  have b4: "\<not> hasProp ''age'' ?w \<or> \<not> isPositiveNumber (getProp ?w ''age'') \<or>
     \<not> isInteger (getProp ?w ''age'') \<longleftrightarrow> F = ''age''"
    using ok by (auto simp: hasProp_delete getProp_delete)
  have b5: "\<not> hasProp ''isActive'' ?w \<or> \<not> isBoolean (getProp ?w ''isActive'') \<longleftrightarrow> F = ''isActive''"
    using ok by (auto simp: hasProp_delete getProp_delete)
  have b6: "\<not> hasProp ''tags'' ?w \<or> \<not> isArray (getProp ?w ''tags'') \<or>
     \<not> every isString (getProp ?w ''tags'') \<longleftrightarrow> F = ''tags''"
    using ok by (auto simp: hasProp_delete getProp_delete)
  have b7: "\<not> hasProp ''createdAt'' ?w \<or> \<not> isDate (getProp ?w ''createdAt'') \<longleftrightarrow> F = ''createdAt''"
    using ok by (auto simp: hasProp_delete getProp_delete)
  have b8: "\<not> hasProp ''updatedAt'' ?w \<or> \<not> isDate (getProp ?w ''updatedAt'') \<longleftrightarrow> F = ''updatedAt''"
    using ok by (auto simp: hasProp_delete getProp_delete)
  have gone: "valueOrUndefined F ?w = JUndefined"
    by (simp add: valueOrUndefined_def hasProp_delete)
  have errs: "errors (validateUser ?w) =
      [\<lparr>field = F, message = fieldMessage F, value' = JUndefined\<rparr>]"
    unfolding validateUser_errors [OF obj b1 b2 b3 b4 b5 b6 b7 b8]
    using F gone by (auto simp: requiredFields_def pushIf_def fieldMessage_def)
  from validateUser_invalid [of ?w] errs fieldMessage_missing [OF F] show ?thesis
    by simp
qed

theorem validateUser_missing_field_witness:
  "isValid (validateUser (JObj ObjectPrototype sampleUser)) \<and>
   ''age'' \<in> set requiredFields \<and>
   validateUser (JObj ObjectPrototype (AList.delete ''age'' sampleUser)) =
     \<lparr>isValid = False, data = None,
      errors = [\<lparr>field = ''age'', message = fieldMessage ''age'', value' = JUndefined\<rparr>]\<rparr>"
proof -
  have v: "isValid (validateUser (JObj ObjectPrototype sampleUser))"
    by (simp add: sampleUser_def validator_defs Let_def)
  have f: "''age'' \<in> set requiredFields"
    by (simp add: requiredFields_def)
  from validateUser_missing_field [OF v f] v f show ?thesis by simp
qed

text \<open>
  Claim C4 as stated fails for \<open>age\<close>: the entry of a missing \<open>age\<close> carries the
  message of a type mismatch.
\<close>

theorem validateUser_missing_age_message:
  "errors (validateUser (JObj ObjectPrototype (AList.delete ''age'' sampleUser))) =
     [\<lparr>field = ''age'', message = ''Age must be a positive integer'', value' = JUndefined\<rparr>]"
  by (simp add: sampleUser_def validator_defs Let_def)

section \<open>Properties of the service\<close>

text \<open>
  Claim C3, as amended. When the input's \<open>age\<close> is \<open>-1\<close>, \<open>createUser\<close> returns the
  validation failure of field \<open>userData\<close> (code \<open>INVALID_USER_DATA\<close>) and leaves the
  service as it was: no user stored, no event appended. The entry of field \<open>age\<close> is in
  the error list of \<open>validateUser\<close> on the object built from the input, which the
  returned failure does not carry.
\<close>

theorem createUser_negative_age:
  assumes age: "map_of (ownProps userData) ''age'' = Some (JNum (Fin (- 1)))"
    and wf: "distinct (map fst (ownProps userData))"
  shows "createUser r userData s =
           (Failure (ValidationError ''userData'' ''Invalid user data'' ''INVALID_USER_DATA''), s) \<and>
         \<lparr>field = ''age'', message = ''Age must be a positive integer'',
           value' = JNum (Fin (- 1))\<rparr>
           \<in> set (errors (validateUser (JObj ObjectPrototype (userLiteral r userData))))"
proof -
  let ?v = "JObj ObjectPrototype (userLiteral r userData)"
  have at: "map_of (userLiteral r userData) ''age'' = Some (JNum (Fin (- 1)))"
    using age by (simp add: userLiteral_def map_of_assign [OF wf])
  then have has: "hasProp ''age'' ?v" and val: "getProp ?v ''age'' = JNum (Fin (- 1))"
    by simp_all
  have bad: "\<not> isPositiveNumber (getProp ?v ''age'')"
    unfolding val by (simp add: isPositiveNumber_def)
  then have "\<not> isValid (validateUser ?v)"
    by (simp add: validateUser_valid_iff)
  then have res: "createUser r userData s =
      (Failure (ValidationError ''userData'' ''Invalid user data'' ''INVALID_USER_DATA''), s)"
    by (simp add: createUser_def Let_def)
  have "valueOrUndefined ''age'' ?v = JNum (Fin (- 1))"
    using has val by (simp add: valueOrUndefined_def del: hasProp.simps getProp.simps)
  with validateUser_age_entry [of ?v] bad res show ?thesis
    by (simp del: hasProp.simps getProp.simps)
qed

theorem createUser_negative_age_witness:
  "map_of (ownProps (sampleInput (JNum (Fin (- 1))))) ''age'' = Some (JNum (Fin (- 1))) \<and>
   distinct (map fst (ownProps (sampleInput (JNum (Fin (- 1)))))) \<and>
   fst (createUser sampleReads (sampleInput (JNum (Fin (- 1)))) emptyService) =
     Failure (ValidationError ''userData'' ''Invalid user data'' ''INVALID_USER_DATA'') \<and>
   users (snd (createUser sampleReads (sampleInput (JNum (Fin (- 1)))) emptyService)) = [] \<and>
   events (snd (createUser sampleReads (sampleInput (JNum (Fin (- 1)))) emptyService)) = []"
proof -
  have a: "map_of (ownProps (sampleInput (JNum (Fin (- 1))))) ''age'' = Some (JNum (Fin (- 1)))"
    and d: "distinct (map fst (ownProps (sampleInput (JNum (Fin (- 1))))))"
    by (simp_all add: sampleInput_def)
  from createUser_negative_age [OF a d, of sampleReads emptyService] a d
  show ?thesis by (simp add: emptyService_def)
qed

text \<open>
  Claim C3 as stated fails: the failure returned names the field \<open>userData\<close>, and has
  no entry for \<open>age\<close>.
\<close>

theorem createUser_negative_age_result:
  "fst (createUser sampleReads (sampleInput (JNum (Fin (- 1)))) emptyService) =
     Failure (ValidationError ''userData'' ''Invalid user data'' ''INVALID_USER_DATA'')"
  by (simp add: sampleReads_def sampleInput_def service_defs validator_defs Let_def)

lemma getUserById_Success:
  "getUserById ident s = Success a \<Longrightarrow>
   map_of (users s) ident = Some a \<and> isUser (objectAt (heap s) a)"
  by (auto simp: getUserById_def split: if_splits option.splits)

lemma isUser_allocated: "isUser (objectAt h a) \<Longrightarrow> a < length h"
  by (auto simp: objectAt_def isUser_def split: if_splits)

lemma objectAt_append:
  "objectAt (h @ [obj]) a =
     (if a < length h then objectAt h a
      else if a = length h then JObj ObjectPrototype obj else JUndefined)"
  by (simp add: objectAt_def nth_append)

lemma updatedUserData_kept:
  "map_of (updatedUserData r existing updates) ''id'' = Some (getProp existing ''id'')"
  "map_of (updatedUserData r existing updates) ''createdAt'' = Some (getProp existing ''createdAt'')"
  by (simp_all add: updatedUserData_def Let_def update_conv')

lemma trim_nonempty:
  assumes "c \<in> set s" and "\<not> isWhiteSpace c"
  shows "trim s \<noteq> []"
proof -
  have keep: "c \<in> set (dropWhile isWhiteSpace xs)" if "c \<in> set xs" for xs
    using that assms(2) by (induction xs) auto
  have "c \<in> set (rev (dropWhile isWhiteSpace s))"
    using keep [OF assms(1)] by simp
  from keep [OF this] have "dropWhile isWhiteSpace (rev (dropWhile isWhiteSpace s)) \<noteq> []"
    by (metis empty_iff empty_set)
  then show ?thesis
    unfolding trim_def by (simp only: rev_is_Nil_conv not_False_eq_True)
qed

lemma generateId_nonEmpty: "isNonEmptyString (JStr (generateId now rnd))"
proof -
  have "CHR ''u'' \<in> set (generateId now rnd)" by (simp add: generateId_def)
  moreover have "\<not> isWhiteSpace CHR ''u''" by (simp add: isWhiteSpace_def)
  ultimately show ?thesis using trim_nonempty by simp
qed

lemma isUser_imp_valid: "isUser v \<Longrightarrow> isValid (validateUser v)"
  unfolding validateUser_valid_iff by (simp add: isUser_def split: if_splits)

lemma isUser_replace:
  assumes u: "isUser (JObj p ps)"
    and vi: "isNonEmptyString vi" and vc: "isDate vc" and vu: "isDate vu"
    and eq: "\<And>k. map_of qs k =
               ((map_of ps)(''id'' \<mapsto> vi, ''createdAt'' \<mapsto> vc, ''updatedAt'' \<mapsto> vu)) k"
  shows "isUser (JObj q qs)"
  using u vi vc vu by (simp add: isUser_def eq)


lemma userLiteral_isUser:
  assumes wf: "validUserCreation t1 t2 userData"
    and d: "distinct (map fst (ownProps userData))"
  shows "isUser (JObj ObjectPrototype (userLiteral r userData))"
proof -
  let ?m = "map_of (ownProps userData)"
  let ?X = "assign [(''id'', JStr ''temp''), (''createdAt'', JDate (Some t1)),
                    (''updatedAt'', JDate (Some t2))] (ownProps userData)"
  define vi where "vi = (case ?m ''id'' of Some v \<Rightarrow> v
                         | None \<Rightarrow> JStr (generateId (idNow1 r) (idRandom1 r)))"
  define vc where "vc = (case ?m ''createdAt'' of Some v \<Rightarrow> v
                         | None \<Rightarrow> JDate (Some (dateNow1 r)))"
  define vu where "vu = (case ?m ''updatedAt'' of Some v \<Rightarrow> v
                         | None \<Rightarrow> JDate (Some (dateNow2 r)))"
  from wf have X: "isUser (JObj ObjectPrototype ?X)"
    by (simp add: validUserCreation_def)
  have Xat: "map_of ?X k = (case ?m k of Some v \<Rightarrow> Some v
      | None \<Rightarrow> map_of [(''id'', JStr ''temp''), (''createdAt'', JDate (Some t1)),
                           (''updatedAt'', JDate (Some t2))] k)" for k
    by (rule map_of_assign [OF d])
  from X have Xi: "isNonEmptyString (getProp (JObj ObjectPrototype ?X) ''id'')"
    and Xc: "isDate (getProp (JObj ObjectPrototype ?X) ''createdAt'')"
    and Xu: "isDate (getProp (JObj ObjectPrototype ?X) ''updatedAt'')"
    by (simp_all add: isUser_def del: getProp.simps hasProp.simps)
  have vi: "isNonEmptyString vi"
  proof (cases "?m ''id''")
    case None
    then show ?thesis by (simp only: vi_def option.case generateId_nonEmpty)
  next
    case (Some v)
    then have "getProp (JObj ObjectPrototype ?X) ''id'' = v" by (simp add: Xat)
    with Xi Some show ?thesis by (simp only: vi_def option.case)
  qed
  have vc: "isDate vc"
  proof (cases "?m ''createdAt''")
    case None
    then show ?thesis by (simp add: vc_def)
  next
    case (Some v)
    then have "getProp (JObj ObjectPrototype ?X) ''createdAt'' = v" by (simp add: Xat)
    with Xc Some show ?thesis by (simp only: vc_def option.case)
  qed
  have vu: "isDate vu"
  proof (cases "?m ''updatedAt''")
    case None
    then show ?thesis by (simp add: vu_def)
  next
    case (Some v)
    then have "getProp (JObj ObjectPrototype ?X) ''updatedAt'' = v" by (simp add: Xat)
    with Xu Some show ?thesis by (simp only: vu_def option.case)
  qed
  have eq: "map_of (userLiteral r userData) k =
      ((map_of ?X)(''id'' \<mapsto> vi, ''createdAt'' \<mapsto> vc, ''updatedAt'' \<mapsto> vu)) k" for k
    by (simp add: userLiteral_def map_of_assign [OF d] vi_def vc_def vu_def
        split: option.splits)
  from X vi vc vu eq show ?thesis by (rule isUser_replace)
qed

lemma sample_created:
  "createUser sampleReads (sampleInput (JNum (Fin 30))) emptyService = (Success 0, sampleService)"
  by (simp add: sampleReads_def sampleInput_def sampleService_def sampleUser_def service_defs
      digitChar_def validator_defs Let_def)

lemma sample_found: "getUserById ''user_1000_q7w1e5rty'' sampleService = Success 0"
  by (simp add: sampleService_def sampleUser_def getUserById_def objectAt_def validator_defs)

lemma objectAt_assignProp:
  "a < length (heap s) \<Longrightarrow>
   objectAt (heap (assignProp a k v s)) a =
     JObj ObjectPrototype (AList.update k v (heap s ! a))"
  by (simp add: assignProp_def objectAt_def)

text \<open>
  Claim C6. A successful \<open>updateUser\<close> stores, under the same key, an entity whose \<open>id\<close>
  and \<open>createdAt\<close> are those of the entity stored before, whatever the partial input
  holds for them.
\<close>

theorem updateUser_preserves_id_createdAt:
  assumes "updateUser r ident updates s = (Success a', s')"
  shows "\<exists>a. map_of (users s) ident = Some a \<and> map_of (users s') ident = Some a' \<and>
           getProp (objectAt (heap s') a') ''id'' = getProp (objectAt (heap s) a) ''id'' \<and>
           getProp (objectAt (heap s') a') ''createdAt'' =
             getProp (objectAt (heap s) a) ''createdAt''"
proof (cases "getUserById ident s")
  case (Failure e)
  with assms show ?thesis by (simp add: updateUser_def)
next
  case (Success a)
  note found = getUserById_Success [OF Success]
  let ?obj = "updatedUserData r (objectAt (heap s) a) updates"
  from assms Success have a': "a' = length (heap s)"
    and s': "s' = s\<lparr>heap := heap s @ [?obj],
                     users := AList.update ident (length (heap s)) (users s),
                     events := events s @
                       [UserUpdated (JDate (Some (updateEventNow r))) ident updates a ''api'']\<rparr>"
    by (auto simp: updateUser_def Let_def split: if_splits)
  have new: "objectAt (heap s') a' = JObj ObjectPrototype ?obj"
    by (simp add: a' s' objectAt_append)
  have stored: "map_of (users s') ident = Some a'"
    by (simp add: a' s' update_conv')
  show ?thesis
    using found stored by (simp add: new updatedUserData_kept)
qed

theorem updateUser_preserves_id_createdAt_witness:
  "fst (updateUser sampleUpdateReads ''user_1000_q7w1e5rty'' sampleUpdates sampleService)
     = Success 1 \<and>
   getProp (objectAt (heap (snd (updateUser sampleUpdateReads ''user_1000_q7w1e5rty''
      sampleUpdates sampleService))) 1) ''id'' = JStr ''user_1000_q7w1e5rty'' \<and>
   getProp (objectAt (heap (snd (updateUser sampleUpdateReads ''user_1000_q7w1e5rty''
      sampleUpdates sampleService))) 1) ''createdAt'' = JDate (Some 1000) \<and>
   getProp (objectAt (heap (snd (updateUser sampleUpdateReads ''user_1000_q7w1e5rty''
      sampleUpdates sampleService))) 1) ''age'' = JNum (Fin 31)"
proof -
  let ?res = "updateUser sampleUpdateReads ''user_1000_q7w1e5rty'' sampleUpdates sampleService"
  have found: "getUserById ''user_1000_q7w1e5rty'' sampleService = Success 0"
    by (simp add: sampleService_def sampleUser_def getUserById_def objectAt_def validator_defs)
  have run: "fst ?res = Success 1"
    unfolding updateUser_def found result.case
    by (simp add: sampleUpdates_def sampleService_def sampleUser_def
        sampleUpdateReads_def updatedUserData_def objectAt_def validator_defs Let_def)
  then have "?res = (Success 1, snd ?res)" by (metis prod.collapse)
  from updateUser_preserves_id_createdAt [OF this]
  have "getProp (objectAt (heap (snd ?res)) 1) ''id'' =
          getProp (objectAt (heap sampleService) 0) ''id'' \<and>
        getProp (objectAt (heap (snd ?res)) 1) ''createdAt'' =
          getProp (objectAt (heap sampleService) 0) ''createdAt''"
    by (simp add: sampleService_def)
  moreover have "getProp (objectAt (heap sampleService) 0) ''id'' = JStr ''user_1000_q7w1e5rty''"
    "getProp (objectAt (heap sampleService) 0) ''createdAt'' = JDate (Some 1000)"
    by (simp_all add: sampleService_def sampleUser_def objectAt_def)
  moreover have "getProp (objectAt (heap (snd ?res)) 1) ''age'' = JNum (Fin 31)"
    unfolding updateUser_def found result.case
    by (simp add: sampleUpdates_def sampleService_def sampleUser_def
        sampleUpdateReads_def updatedUserData_def objectAt_def validator_defs Let_def)
  ultimately show ?thesis using run by simp
qed


text \<open>
  Claim C7, as amended. For an input that the creation check accepts, \<open>createUser\<close>
  succeeds and \<open>getUserById\<close> on the new id returns the same entity. Its \<open>id\<close> is the
  generated one, \<open>createdAt\<close> and \<open>updatedAt\<close> are dates holding the two clock readings
  taken for them, and every other property is the input's. The two dates are equal
  exactly when the two readings are.
\<close>

theorem createUser_then_getUserById:
  assumes wf: "validUserCreation t1 t2 userData"
    and d: "distinct (map fst (ownProps userData))"
  shows "\<exists>a s'. createUser r userData s = (Success a, s') \<and>
           getUserById (generateId (idNow2 r) (idRandom2 r)) s' = Success a \<and>
           getProp (objectAt (heap s') a) ''id'' = JStr (generateId (idNow2 r) (idRandom2 r)) \<and>
           getProp (objectAt (heap s') a) ''createdAt'' = JDate (Some (createdNow r)) \<and>
           getProp (objectAt (heap s') a) ''updatedAt'' = JDate (Some (updatedNow r)) \<and>
           (\<forall>k. k \<notin> {''id'', ''createdAt'', ''updatedAt''} \<longrightarrow>
              hasProp k (objectAt (heap s') a) =
                hasProp k (JObj ObjectPrototype (ownProps userData)) \<and>
              getProp (objectAt (heap s') a) k =
                getProp (JObj ObjectPrototype (ownProps userData)) k) \<and>
           (getProp (objectAt (heap s') a) ''updatedAt'' =
              getProp (objectAt (heap s') a) ''createdAt'' \<longleftrightarrow>
            updatedNow r = createdNow r)"
proof -
  let ?L = "userLiteral r userData"
  let ?newId = "generateId (idNow2 r) (idRandom2 r)"
  let ?S = "AList.update ''updatedAt'' (JDate (Some (updatedNow r)))
             (AList.update ''createdAt'' (JDate (Some (createdNow r)))
               (AList.update ''id'' (JStr ?newId) ?L))"
  let ?a = "length (heap s)"
  let ?s' = "s\<lparr>heap := heap s @ [?S], users := AList.update ?newId ?a (users s),
               events := events s @
                 [UserCreated (JDate (Some (eventNow r))) ?a ''admin''
                    (JObj ObjectPrototype [(''createdVia'', JStr ''api'')])]\<rparr>"
  have L: "isUser (JObj ObjectPrototype ?L)"
    using wf d by (rule userLiteral_isUser)
  then have "isValid (validateUser (JObj ObjectPrototype ?L))"
    by (rule isUser_imp_valid)
  then have run: "createUser r userData s = (Success ?a, ?s')"
    by (simp add: createUser_def Let_def)
  have Sat: "map_of ?S k =
      ((map_of ?L)(''id'' \<mapsto> JStr ?newId, ''createdAt'' \<mapsto> JDate (Some (createdNow r)),
                   ''updatedAt'' \<mapsto> JDate (Some (updatedNow r)))) k" for k
    by (simp add: update_conv')
  have S: "isUser (JObj ObjectPrototype ?S)"
    using L generateId_nonEmpty _ _ Sat by (rule isUser_replace) simp_all
  have at: "objectAt (heap ?s') ?a = JObj ObjectPrototype ?S"
    by (simp add: objectAt_def)
  have "isUser (objectAt (heap ?s') ?a)"
    using S by (simp only: at)
  moreover have "map_of (users ?s') ?newId = Some ?a"
    by (simp add: update_conv')
  ultimately have get: "getUserById ?newId ?s' = Success ?a"
    using generateId_nonEmpty [of "idNow2 r" "idRandom2 r"]
    unfolding getUserById_def by (simp del: isNonEmptyString.simps)
  have Lat: "map_of ?L k = map_of (ownProps userData) k"
    if "k \<notin> {''id'', ''createdAt'', ''updatedAt''}" for k
    using that by (simp add: userLiteral_def map_of_assign [OF d] split: option.splits)
  have frame: "hasProp k (objectAt (heap ?s') ?a) =
        hasProp k (JObj ObjectPrototype (ownProps userData)) \<and>
      getProp (objectAt (heap ?s') ?a) k =
        getProp (JObj ObjectPrototype (ownProps userData)) k"
    if "k \<notin> {''id'', ''createdAt'', ''updatedAt''}" for k
    using that Lat [OF that] unfolding at by (simp add: Sat)
  have "getProp (objectAt (heap ?s') ?a) ''id'' = JStr ?newId"
    and "getProp (objectAt (heap ?s') ?a) ''createdAt'' = JDate (Some (createdNow r))"
    and "getProp (objectAt (heap ?s') ?a) ''updatedAt'' = JDate (Some (updatedNow r))"
    unfolding at by (simp_all add: Sat)
  with run get frame show ?thesis
    by (intro exI [of _ ?a] exI [of _ ?s']) simp
qed


theorem createUser_then_getUserById_witness:
  "validUserCreation 1000 1000 (sampleInput (JNum (Fin 30))) \<and>
   distinct (map fst (ownProps (sampleInput (JNum (Fin 30))))) \<and>
   isSuccess (fst (createUser sampleReads (sampleInput (JNum (Fin 30))) emptyService)) \<and>
   getUserById (generateId (idNow2 sampleReads) (idRandom2 sampleReads))
     (snd (createUser sampleReads (sampleInput (JNum (Fin 30))) emptyService)) =
     fst (createUser sampleReads (sampleInput (JNum (Fin 30))) emptyService)"
proof -
  have wf: "validUserCreation 1000 1000 (sampleInput (JNum (Fin 30)))"
    by (simp add: validUserCreation_def sampleInput_def validator_defs)
  have d: "distinct (map fst (ownProps (sampleInput (JNum (Fin 30)))))"
    by (simp add: sampleInput_def)
  from createUser_then_getUserById [OF wf d, of sampleReads emptyService]
  obtain a s' where
    "createUser sampleReads (sampleInput (JNum (Fin 30))) emptyService = (Success a, s')"
    "getUserById (generateId (idNow2 sampleReads) (idRandom2 sampleReads)) s' = Success a"
    by blast
  with wf d show ?thesis by simp
qed

text \<open>
  Claim C7 as stated fails when the clock advances between the two \<open>new Date()\<close> of
  \<open>createUser\<close>: \<open>updatedAt\<close> is then later than \<open>createdAt\<close>.
\<close>

theorem createUser_timestamps_differ:
  "fst (createUser sampleReads (sampleInput (JNum (Fin 30))) emptyService) = Success 0 \<and>
   getProp (objectAt (heap (snd (createUser sampleReads (sampleInput (JNum (Fin 30)))
      emptyService))) 0) ''createdAt'' = JDate (Some 1000) \<and>
   getProp (objectAt (heap (snd (createUser sampleReads (sampleInput (JNum (Fin 30)))
      emptyService))) 0) ''updatedAt'' = JDate (Some 1001)"
  unfolding sample_created
  by (simp add: sampleService_def sampleUser_def objectAt_def)

text \<open>
  Claim C2, as amended. The reference \<open>createUser\<close> returns is the one it put into the
  map under the new id, and the reference \<open>getUserById\<close> returns is the one the map
  holds: no copy is made. An assignment through it changes the object the store holds,
  and a later \<open>getUserById\<close> of the same id reads the assigned value.
\<close>

theorem returned_reference_is_live:
  "(createUser r userData s = (Success a, s') \<longrightarrow>
      map_of (users s') (generateId (idNow2 r) (idRandom2 r)) = Some a \<and>
      a < length (heap s')) \<and>
   (getUserById ident s = Success a \<longrightarrow>
      map_of (users s) ident = Some a \<and> a < length (heap s) \<and>
      (\<forall>k v. map_of (users (assignProp a k v s)) ident = Some a \<and>
             getProp (objectAt (heap (assignProp a k v s)) a) k = v))"
proof (rule conjI; rule impI)
  assume "createUser r userData s = (Success a, s')"
  then show "map_of (users s') (generateId (idNow2 r) (idRandom2 r)) = Some a \<and>
      a < length (heap s')"
    by (auto simp: createUser_def Let_def update_conv' split: if_splits)
next
  assume get: "getUserById ident s = Success a"
  note found = getUserById_Success [OF get]
  then have alloc: "a < length (heap s)" by (simp add: isUser_allocated)
  have "map_of (users (assignProp a k v s)) ident = Some a \<and>
        getProp (objectAt (heap (assignProp a k v s)) a) k = v" for k v
    using found by (simp add: objectAt_assignProp [OF alloc] update_conv') (simp add: assignProp_def)
  with found alloc show "map_of (users s) ident = Some a \<and> a < length (heap s) \<and>
      (\<forall>k v. map_of (users (assignProp a k v s)) ident = Some a \<and>
             getProp (objectAt (heap (assignProp a k v s)) a) k = v)"
    by blast
qed

theorem returned_reference_is_live_witness:
  "getUserById ''user_1000_q7w1e5rty'' sampleService = Success 0 \<and>
   map_of (users sampleService) ''user_1000_q7w1e5rty'' = Some 0 \<and>
   getProp (objectAt (heap (assignProp 0 ''name'' (JStr ''Bob'') sampleService)) 0) ''name''
     = JStr ''Bob''"
  using returned_reference_is_live [where ident = "''user_1000_q7w1e5rty''"
      and s = sampleService and a = 0, THEN conjunct2, rule_format, OF sample_found]
    sample_found
  by blast

text \<open>
  Claim C2 as stated fails: after the caller renames the entity that \<open>createUser\<close>
  returned, \<open>getUserById\<close> returns the renamed entity.
\<close>

theorem caller_mutation_changes_stored_entity:
  "fst (createUser sampleReads (sampleInput (JNum (Fin 30))) emptyService) = Success 0 \<and>
   getUserById ''user_1000_q7w1e5rty'' sampleService = Success 0 \<and>
   getProp (objectAt (heap sampleService) 0) ''name'' = JStr ''Ann'' \<and>
   getUserById ''user_1000_q7w1e5rty'' (assignProp 0 ''name'' (JStr ''Bob'') sampleService)
     = Success 0 \<and>
   getProp (objectAt (heap (assignProp 0 ''name'' (JStr ''Bob'') sampleService)) 0) ''name''
     = JStr ''Bob'' \<and>
   sampleService = snd (createUser sampleReads (sampleInput (JNum (Fin 30))) emptyService)"
  unfolding sample_created
  by (simp add: sampleService_def sampleUser_def getUserById_def objectAt_def assignProp_def
      validator_defs)

text \<open>
  Claim C1 at its failing input. \<open>createUser\<close> accepts an input whose \<open>metadata\<close> is a
  string, since \<open>validateUser\<close> has no check of \<open>metadata\<close>; the stored entity does not
  pass \<open>isUser\<close>, and \<open>getUserById\<close> reports it as corrupted.
\<close>

theorem createUser_stores_non_user:
  "fst (createUser sampleReads (sampleInputMetadata (JStr ''vip'')) emptyService) = Success 0 \<and>
   map_of (users (snd (createUser sampleReads (sampleInputMetadata (JStr ''vip''))
      emptyService))) ''user_1000_q7w1e5rty'' = Some 0 \<and>
   \<not> isUser (objectAt (heap (snd (createUser sampleReads (sampleInputMetadata (JStr ''vip''))
      emptyService))) 0) \<and>
   getUserById ''user_1000_q7w1e5rty''
     (snd (createUser sampleReads (sampleInputMetadata (JStr ''vip'')) emptyService)) =
     Failure (BusinessError ''DATA_CORRUPTION'' ''Stored user data is corrupted'')"
  by (simp add: sampleReads_def sampleInputMetadata_def service_defs digitChar_def
      validator_defs Let_def)

theorem createUser_stores_non_user_witness:
  "isSuccess (fst (createUser sampleReads (sampleInputMetadata (JStr ''vip'')) emptyService)) \<and>
   \<not> isSuccess (getUserById ''user_1000_q7w1e5rty''
     (snd (createUser sampleReads (sampleInputMetadata (JStr ''vip'')) emptyService)))"
  using createUser_stores_non_user by simp

section \<open>Properties of the listing\<close>

declare floorLog2.simps [simp del]

lemma floorLog2_small: "n < 2 \<Longrightarrow> floorLog2 n = 0"
  by (subst floorLog2.simps) simp

lemma floorLog2_step: "2 \<le> n \<Longrightarrow> floorLog2 n = Suc (floorLog2 (n div 2))"
  by (subst floorLog2.simps) simp

lemma floor_rat_numeral [simp]: "\<lfloor>numeral a / numeral b :: rat\<rfloor> = numeral a div numeral b"
  using floor_divide_of_int_eq [of "numeral a" "numeral b", where ?'a = rat] by simp

lemma page_bounds:
  assumes k: "1 \<le> k" and l: "1 \<le> (l::nat)"
  shows "k - 1 \<le> k * l" "(k - 1) * l \<le> k * l" "(k - 1) * l + l = k * l"
proof -
  from l obtain i where "l = Suc i" by (cases l) auto
  then show "k - 1 \<le> k * l" by simp
  show "(k - 1) * l \<le> k * l" by (simp add: mult_le_mono1)
  from k obtain j where "k = Suc j" by (cases k) auto
  then show "(k - 1) * l + l = k * l" by simp
qed

lemma floorLog2_le: "n < 2 ^ Suc k \<Longrightarrow> floorLog2 n \<le> k"
proof (induction k arbitrary: n)
  case 0
  then show ?case by (simp add: floorLog2_small)
next
  case (Suc k)
  show ?case
  proof (cases "n < 2")
    case True
    then show ?thesis by (subst floorLog2.simps) simp
  next
    case False
    from Suc.prems have "n div 2 < 2 ^ Suc k" by simp
    then have "floorLog2 (n div 2) \<le> k" by (rule Suc.IH)
    with False show ?thesis by (subst floorLog2.simps) simp
  qed
qed

lemma roundHalfEven_of_int: "roundHalfEven (of_int z) = z"
  by (simp add: roundHalfEven_def)

lemma toDouble_of_nat:
  assumes "n < 2 ^ 53"
  shows "toDouble (of_nat n) = Fin (of_nat n)"
proof (cases "n = 0")
  case True
  then show ?thesis by (simp add: toDouble_def)
next
  case False
  define e where "e = floorLog2 n"
  define j where "j = 52 - e"
  from assms have e52: "e \<le> 52"
    unfolding e_def by (intro floorLog2_le) simp
  from False have pos: "(1::rat) \<le> of_nat n" by simp
  have ex: "exponentOf (of_nat n) = int e"
    using pos by (simp add: exponentOf_def e_def)
  have ulp: "pow2 (max (int e) (- 1022) - 52) = 1 / 2 ^ j"
    using e52 by (auto simp: pow2_def j_def nat_diff_distrib' max_def)
  have "(of_nat n :: rat) / (1 / 2 ^ j) = of_int (int (n * 2 ^ j))" by simp
  then have m: "roundHalfEven ((of_nat n :: rat) / (1 / 2 ^ j)) = int (n * 2 ^ j)"
    by (simp only: roundHalfEven_of_int)
  have again: "of_int (int (n * 2 ^ j)) * (1 / 2 ^ j) = (of_nat n :: rat)" by simp
  have small: "\<not> pow2 1024 \<le> (of_nat n :: rat)"
  proof -
    have "(of_nat n :: rat) < of_nat (2 ^ 53)" using assms by (simp only: of_nat_less_iff)
    also have "\<dots> \<le> pow2 1024" by (simp add: pow2_def)
    finally show ?thesis by simp
  qed
  have absn: "\<bar>of_nat n :: rat\<bar> = of_nat n" by simp
  show ?thesis
    unfolding toDouble_def Let_def absn ex ulp m again
    using False small by simp
qed


lemma compareUsers_throws:
  "(\<exists>m. compareUsers H h k ord a b = Inl m) \<longleftrightarrow>
     convError H (getProp (objectAt h a) k) \<noteq> None \<or>
     convError H (getProp (objectAt h b) k) \<noteq> None"
  by (cases "convError H (getProp (objectAt h a) k)";
      cases "convError H (getProp (objectAt h b) k)")
    (simp_all add: compareUsers_def lessThan'_def greaterThan'_def Let_def)

lemma insertBy_mset:
  "insertBy cmp x ys = Inr zs \<Longrightarrow> mset zs = add_mset x (mset ys)"
proof (induction ys arbitrary: zs)
  case Nil
  then show ?case by auto
next
  case (Cons y ys)
  then show ?case
    by (auto split: sum.splits if_splits)
qed

lemma insertBy_ok:
  assumes fails: "\<And>x y. (\<exists>m. cmp x y = Inl m) = (T x \<or> T y)"
    and "\<not> T x" and "\<forall>y\<in>set ys. \<not> T y"
  shows "\<exists>zs. insertBy cmp x ys = Inr zs"
  using assms(3)
proof (induction ys)
  case Nil
  then show ?case by simp
next
  case (Cons y ys)
  from Cons.prems assms(2) fails [of x y] obtain c where c: "cmp x y = Inr c"
    by (cases "cmp x y") auto
  from Cons obtain zs where "insertBy cmp x ys = Inr zs" by auto
  with c show ?case by simp
qed

lemma insertBy_fails_iff:
  assumes fails: "\<And>x y. (\<exists>m. cmp x y = Inl m) = (T x \<or> T y)"
    and few: "length ys \<le> 1 \<or> (\<forall>y\<in>set ys. \<not> T y)"
  shows "(\<exists>m. insertBy cmp x ys = Inl m) \<longleftrightarrow> ys \<noteq> [] \<and> (T x \<or> (\<exists>y\<in>set ys. T y))"
proof (cases ys)
  case Nil
  then show ?thesis by simp
next
  case (Cons y ys')
  show ?thesis
  proof (cases "T x \<or> T y")
    case True
    with fails [of x y] obtain m where "cmp x y = Inl m" by auto
    with Cons True show ?thesis by auto
  next
    case False
    with fails [of x y] obtain c where c: "cmp x y = Inr c"
      by (cases "cmp x y") auto
    from few Cons False have rest: "\<forall>z\<in>set ys'. \<not> T z" by (cases ys') auto
    from insertBy_ok [of cmp T x ys', OF fails] False rest
    obtain zs where "insertBy cmp x ys' = Inr zs" by auto
    with c Cons False rest show ?thesis by auto
  qed
qed

lemma sortBy'_mset: "sortBy' cmp xs = Inr ys \<Longrightarrow> mset ys = mset xs"
proof (induction xs arbitrary: ys)
  case Nil
  then show ?case by simp
next
  case (Cons x xs)
  then show ?case
    by (auto split: sum.splits dest: insertBy_mset)
qed

lemma sortBy'_fails_iff:
  assumes fails: "\<And>x y. (\<exists>m. cmp x y = Inl m) = (T x \<or> T y)"
  shows "(\<exists>m. sortBy' cmp xs = Inl m) \<longleftrightarrow> 2 \<le> length xs \<and> (\<exists>x\<in>set xs. T x)"
proof (induction xs)
  case Nil
  then show ?case by simp
next
  case (Cons x xs)
  show ?case
  proof (cases "sortBy' cmp xs")
    case (Inl m)
    with Cons.IH have "2 \<le> length xs \<and> (\<exists>x\<in>set xs. T x)" by auto
    with Inl show ?thesis by auto
  next
    case (Inr ys)
    then have same: "mset ys = mset xs" by (rule sortBy'_mset)
    then have set: "set ys = set xs" and len: "length ys = length xs"
      by (metis set_mset_mset, metis size_mset)
    from Inr Cons.IH have "length xs \<le> 1 \<or> (\<forall>x\<in>set xs. \<not> T x)" by auto
    then have few: "length ys \<le> 1 \<or> (\<forall>y\<in>set ys. \<not> T y)"
      by (simp only: set len)
    have "(\<exists>m. sortBy' cmp (x # xs) = Inl m) \<longleftrightarrow> (\<exists>m. insertBy cmp x ys = Inl m)"
      using Inr by simp
    also have "\<dots> \<longleftrightarrow> ys \<noteq> [] \<and> (T x \<or> (\<exists>y\<in>set ys. T y))"
      using fails few by (rule insertBy_fails_iff)
    also have "\<dots> \<longleftrightarrow> 2 \<le> length (x # xs) \<and> (\<exists>z\<in>set (x # xs). T z)"
    proof -
      from len have "ys \<noteq> [] \<longleftrightarrow> xs \<noteq> []" by auto
      moreover have "2 \<le> length (x # xs) \<longleftrightarrow> xs \<noteq> []" by (cases xs) auto
      ultimately show ?thesis by (simp add: set)
    qed
    finally show ?thesis .
  qed
qed


lemma toDouble_numeral:
  "numeral w < (2::nat) ^ 53 \<Longrightarrow> toDouble (numeral w) = Fin (numeral w)"
  using toDouble_of_nat [of "numeral w"] by simp


lemma toDouble_one: "toDouble 1 = Fin 1"
  using toDouble_of_nat [of 1] by simp


lemma toDouble_five_halves: "toDouble (5 / 2) = Fin (5 / 2)"
  by (simp add: toDouble_def exponentOf_def pow2_def roundHalfEven_def Let_def
      floorLog2_small floorLog2_step)


lemma toInteger_of_nat: "toIntegerOrInfinity (of_nat n) = int n"
  by (simp add: toIntegerOrInfinity_def)


lemma relativeIndex_of_nat: "relativeIndex len (Fin (of_nat n)) = min n len"
  by (simp add: toInteger_of_nat Let_def)


lemma take_min_length: "take (min l (length ys)) ys = take l ys"
  by (cases "l \<le> length ys") (simp_all add: min_def)


lemma slice_of_nat:
  "slice xs (Fin (of_nat a)) (Fin (of_nat (a + l))) = take l (drop a xs)"
proof (cases "a \<le> length xs")
  case True
  then have "min (a + l) (length xs) - min a (length xs) = min l (length (drop a xs))"
    by (auto simp: min_def)
  with True show ?thesis
    unfolding slice_def Let_def relativeIndex_of_nat
    by (simp only: take_min_length min_absorb1)
next
  case False
  then have "drop (min a (length xs)) xs = []" "drop a xs = []"
    by (simp_all add: min_def)
  then show ?thesis
    unfolding slice_def Let_def relativeIndex_of_nat by (simp only: take_Nil)
qed


lemma concat_chunks: "concat (map (\<lambda>k. take l (drop (k * l) xs)) [0..<n]) = take (n * l) xs"
proof (induction n)
  case 0
  then show ?case by simp
next
  case (Suc n)
  have "take (l + n * l) xs = take (n * l) xs @ take l (drop (n * l) xs)"
    using take_add [of "n * l" l xs] by (simp add: add.commute)
  with Suc show ?case by simp
qed


lemma concat_pages:
  "concat (map (\<lambda>k. take l (drop ((k - 1) * l) xs)) [1..<Suc n]) = take (n * l) xs"
proof -
  have "map (\<lambda>k. take l (drop ((k - 1) * l) xs)) [1..<Suc n] =
        map (\<lambda>k. take l (drop (k * l) xs)) [0..<n]"
  proof -
    have "[1..<Suc n] = map Suc [0..<n]"
      by (simp only: map_Suc_upt One_nat_def)
    then show ?thesis by (simp add: o_def)
  qed
  then show ?thesis by (simp only: concat_chunks)
qed


lemma pages_cover: "0 < l \<Longrightarrow> n \<le> ((n + l - 1) div l) * (l::nat)"
proof -
  assume l: "0 < l"
  have "(n + l - 1) div l * l = (n + l - 1) - (n + l - 1) mod l"
    by (simp add: minus_mod_eq_div_mult)
  moreover have "(n + l - 1) mod l < l" using l by simp
  ultimately show ?thesis using l by linarith
qed


lemma numberOr_of_nat: "1 \<le> k \<Longrightarrow> numberOr (Some (Fin (of_nat k))) d = Fin (of_nat k)"
  by simp


lemma isPositiveNumber_of_nat: "1 \<le> k \<Longrightarrow> isPositiveNumber (JNum (Fin (of_nat k)))"
  by (simp add: isPositiveNumber_def)


lemma page_indices:
  assumes k: "1 \<le> k" and small: "k * l < 2 ^ 53" and l: "1 \<le> l"
  shows "numMul (numSub (Fin (of_nat k)) (Fin 1)) (Fin (of_nat l)) = Fin (of_nat ((k - 1) * l))"
    and "numAdd (Fin (of_nat ((k - 1) * l))) (Fin (of_nat l)) = Fin (of_nat ((k - 1) * l + l))"
proof -
  from page_bounds [OF k l] small have b1: "k - 1 < 2 ^ 53" and b2: "(k - 1) * l < 2 ^ 53"
    and b3: "(k - 1) * l + l < 2 ^ 53" by simp_all
  have minus: "(of_nat k :: rat) + - 1 = of_nat (k - 1)"
    using k by (simp add: of_nat_diff)
  have "numSub (Fin (of_nat k)) (Fin 1) = toDouble (of_nat k + - 1)"
    by (simp only: numSub_def numNeg.simps numAdd.simps)
  also have "\<dots> = Fin (of_nat (k - 1))"
    unfolding minus by (rule toDouble_of_nat [OF b1])
  finally have sub: "numSub (Fin (of_nat k)) (Fin 1) = Fin (of_nat (k - 1))" .
  have "numMul (Fin (of_nat (k - 1))) (Fin (of_nat l)) = toDouble (of_nat ((k - 1) * l))"
    by (simp only: numMul.simps of_nat_mult)
  also have "\<dots> = Fin (of_nat ((k - 1) * l))"
    by (rule toDouble_of_nat [OF b2])
  finally show "numMul (numSub (Fin (of_nat k)) (Fin 1)) (Fin (of_nat l)) =
      Fin (of_nat ((k - 1) * l))"
    unfolding sub .
  have "numAdd (Fin (of_nat ((k - 1) * l))) (Fin (of_nat l)) =
      toDouble (of_nat ((k - 1) * l + l))"
    by (simp only: numAdd.simps of_nat_add)
  also have "\<dots> = Fin (of_nat ((k - 1) * l + l))"
    by (rule toDouble_of_nat [OF b3])
  finally show "numAdd (Fin (of_nat ((k - 1) * l))) (Fin (of_nat l)) =
      Fin (of_nat ((k - 1) * l + l))" .
qed


lemma isPositiveNumber_numberOr:
  "0 < d \<Longrightarrow> isPositiveNumber (JNum (numberOr n (Fin d))) \<longleftrightarrow> \<not> rejected n"
proof (cases n)
  case None
  then show ?thesis if "0 < d" using that by (simp add: isPositiveNumber_def)
next
  case (Some m)
  then show ?thesis if "0 < d" using that
    by (cases m) (auto simp: isPositiveNumber_def)
qed

lemma getUsers_accepted:
  assumes "\<not> rejected pg" "\<not> rejected lm"
  shows "getUsers H pg lm sb so s =
     (case sortBy' (compareUsers H (heap s) (stringOr sb ''createdAt'') (sortOrderOr so Desc))
             (filter (\<lambda>a. isUser (objectAt (heap s) a)) (map snd (users s))) of
        Inl m \<Rightarrow> Failure (BusinessError ''QUERY_ERROR'' m)
      | Inr sortedUsers \<Rightarrow>
          Success \<lparr>users' = slice sortedUsers
                     (numMul (numSub (numberOr pg (Fin 1)) (Fin 1)) (numberOr lm (Fin 10)))
                     (numAdd (numMul (numSub (numberOr pg (Fin 1)) (Fin 1))
                        (numberOr lm (Fin 10))) (numberOr lm (Fin 10))),
                   total' = length sortedUsers, page = numberOr pg (Fin 1),
                   limit = numberOr lm (Fin 10)\<rparr>)"
  using assms unfolding getUsers_def Let_def
  by (simp add: isPositiveNumber_numberOr)

lemma getUsers_sort_throws:
  "(\<exists>m. sortBy' (compareUsers H h k ord) xs = Inl m) \<longleftrightarrow>
     2 \<le> length xs \<and> (\<exists>a\<in>set xs. convError H (getProp (objectAt h a) k) \<noteq> None)"
  by (rule sortBy'_fails_iff) (rule compareUsers_throws)

text \<open>
  Claim C5, as amended. \<open>getUsers\<close> fails with the validation error
  \<open>INVALID_PAGINATION\<close> exactly when \<open>page\<close> or \<open>limit\<close> is given as a negative number or
  an infinity. A missing, zero or NaN value is replaced by the default (\<open>page\<close> 1,
  \<open>limit\<close> 10) and any other positive value, a limit above 100 included, is used as
  given. The call then succeeds and reports the page and limit it used, unless the sort
  throws: with two or more stored users that pass \<open>isUser\<close> and a sort key whose
  conversion throws for one of them, the result is the failure \<open>QUERY_ERROR\<close>.
\<close>

theorem getUsers_rejects:
  assumes M: "M = filter (\<lambda>a. isUser (objectAt (heap s) a)) (map snd (users s))"
  shows "(getUsers H pg lm sb so s =
      Failure (ValidationError ''pagination'' ''Page and limit must be positive numbers''
                 ''INVALID_PAGINATION'')
    \<longleftrightarrow> rejected pg \<or> rejected lm) \<and>
   (\<not> rejected pg \<and> \<not> rejected lm \<longrightarrow>
      ((\<exists>m. getUsers H pg lm sb so s = Failure (BusinessError ''QUERY_ERROR'' m)) \<longleftrightarrow>
         2 \<le> length M \<and>
         (\<exists>a\<in>set M. convError H (getProp (objectAt (heap s) a) (stringOr sb ''createdAt''))
                        \<noteq> None)) \<and>
      ((\<exists>m. getUsers H pg lm sb so s = Failure (BusinessError ''QUERY_ERROR'' m)) \<or>
       (\<exists>r. getUsers H pg lm sb so s = Success r \<and> total' r = length M \<and>
            page r = numberOr pg (Fin 1) \<and> limit r = numberOr lm (Fin 10)))) \<and>
   numberOr (Some (Fin 0)) (Fin 1) = Fin 1 \<and>
   (\<forall>q>100. numberOr (Some (Fin q)) (Fin 10) = Fin q)"
proof (intro conjI impI)
  have p: "isPositiveNumber (JNum (numberOr pg (Fin 1))) \<longleftrightarrow> \<not> rejected pg"
    and l: "isPositiveNumber (JNum (numberOr lm (Fin 10))) \<longleftrightarrow> \<not> rejected lm"
    by (simp_all add: isPositiveNumber_numberOr)
  show "getUsers H pg lm sb so s =
      Failure (ValidationError ''pagination'' ''Page and limit must be positive numbers''
                 ''INVALID_PAGINATION'')
    \<longleftrightarrow> rejected pg \<or> rejected lm"
    unfolding getUsers_def Let_def p l by (auto split: sum.splits)
next
  assume ok: "\<not> rejected pg \<and> \<not> rejected lm"
  let ?sort = "sortBy' (compareUsers H (heap s) (stringOr sb ''createdAt'')
                 (sortOrderOr so Desc)) M"
  note run = getUsers_accepted [of pg lm H sb so s, folded M]
  have "(\<exists>m. getUsers H pg lm sb so s = Failure (BusinessError ''QUERY_ERROR'' m)) \<longleftrightarrow>
        (\<exists>m. ?sort = Inl m)"
    using ok by (cases ?sort) (simp_all add: run)
  also have "\<dots> \<longleftrightarrow> 2 \<le> length M \<and>
         (\<exists>a\<in>set M. convError H (getProp (objectAt (heap s) a) (stringOr sb ''createdAt''))
                        \<noteq> None)"
    by (rule getUsers_sort_throws)
  finally show "(\<exists>m. getUsers H pg lm sb so s = Failure (BusinessError ''QUERY_ERROR'' m)) \<longleftrightarrow>
         2 \<le> length M \<and>
         (\<exists>a\<in>set M. convError H (getProp (objectAt (heap s) a) (stringOr sb ''createdAt''))
                        \<noteq> None)" .
  show "(\<exists>m. getUsers H pg lm sb so s = Failure (BusinessError ''QUERY_ERROR'' m)) \<or>
       (\<exists>r. getUsers H pg lm sb so s = Success r \<and> total' r = length M \<and>
            page r = numberOr pg (Fin 1) \<and> limit r = numberOr lm (Fin 10))"
  proof (cases ?sort)
    case (Inl m)
    with ok show ?thesis by (simp add: run)
  next
    case (Inr ys)
    then have "length ys = length M" by (metis sortBy'_mset size_mset)
    with Inr ok show ?thesis by (simp add: run)
  qed
qed simp_all


lemma getUsers_page:
  assumes k: "1 \<le> k" and l: "1 \<le> l" and small: "k * l < 2 ^ 53"
    and sort: "sortBy' (compareUsers H (heap s) (stringOr sb ''createdAt'')
                 (sortOrderOr so Desc))
                 (filter (\<lambda>a. isUser (objectAt (heap s) a)) (map snd (users s))) = Inr ys"
  shows "getUsers H (Some (Fin (of_nat k))) (Some (Fin (of_nat l))) sb so s =
     Success \<lparr>users' = take l (drop ((k - 1) * l) ys), total' = length ys,
              page = Fin (of_nat k), limit = Fin (of_nat l)\<rparr>"
proof -
  have ok: "\<not> rejected (Some (Fin (of_nat k)))" "\<not> rejected (Some (Fin (of_nat l)))"
    by simp_all
  show ?thesis
    unfolding getUsers_accepted [OF ok] sort sum.case numberOr_of_nat [OF k]
      numberOr_of_nat [OF l] page_indices [OF k small l] slice_of_nat ..
qed

text \<open>
  Claim C8, as amended. Take a store of fewer than \<open>2^52\<close> entries, a whole-number
  \<open>limit\<close> from 1 to 100 and a sort whose comparisons do not throw. Then \<open>getUsers\<close>
  succeeds for every whole-number \<open>page \<ge> 1\<close> (with \<open>page * limit < 2^53\<close>), with at most
  \<open>limit\<close> users and with \<open>total\<close> the number of stored users that pass \<open>isUser\<close>; the
  pages \<open>1 .. ceil(total / limit)\<close>, one after the other, are the whole sorted list,
  which has the same members as that set, each as often.
\<close>

theorem getUsers_pagination:
  assumes l: "1 \<le> l" "l \<le> 100"
    and M: "M = filter (\<lambda>a. isUser (objectAt (heap s) a)) (map snd (users s))"
    and size: "length (users s) < 2 ^ 52"
    and quiet: "2 \<le> length M \<longrightarrow>
      (\<forall>a\<in>set M. convError H (getProp (objectAt (heap s) a) (stringOr sb ''createdAt'')) = None)"
  shows "\<exists>ys. sortBy' (compareUsers H (heap s) (stringOr sb ''createdAt'')
                (sortOrderOr so Desc)) M = Inr ys \<and>
           mset ys = mset M \<and>
           (\<forall>k. 1 \<le> k \<and> k * l < 2 ^ 53 \<longrightarrow>
              (\<exists>us. getUsers H (Some (Fin (of_nat k))) (Some (Fin (of_nat l))) sb so s =
                      Success \<lparr>users' = us, total' = length M,
                               page = Fin (of_nat k), limit = Fin (of_nat l)\<rparr> \<and>
                    length us \<le> l)) \<and>
           concat (map (\<lambda>k. pageUsers
                     (getUsers H (Some (Fin (of_nat k))) (Some (Fin (of_nat l))) sb so s))
                   [1..<Suc ((length M + l - 1) div l)]) = ys"
proof -
  let ?sort = "sortBy' (compareUsers H (heap s) (stringOr sb ''createdAt'')
                 (sortOrderOr so Desc)) M"
  let ?get = "\<lambda>k. getUsers H (Some (Fin (of_nat k))) (Some (Fin (of_nat l))) sb so s"
  let ?n = "(length M + l - 1) div l"
  from quiet have "\<not> (\<exists>m. ?sort = Inl m)"
    unfolding getUsers_sort_throws by auto
  then obtain ys where ys: "?sort = Inr ys" by (cases ?sort) auto
  then have perm: "mset ys = mset M" by (rule sortBy'_mset)
  then have len: "length ys = length M" by (metis size_mset)
  have page: "?get k = Success \<lparr>users' = take l (drop ((k - 1) * l) ys), total' = length M,
                 page = Fin (of_nat k), limit = Fin (of_nat l)\<rparr>"
    if "1 \<le> k" "k * l < 2 ^ 53" for k
    using getUsers_page [OF that(1) l(1) that(2) ys [unfolded M]] by (simp only: len)
  have count: "\<exists>us. ?get k = Success \<lparr>users' = us, total' = length M,
                 page = Fin (of_nat k), limit = Fin (of_nat l)\<rparr> \<and> length us \<le> l"
    if "1 \<le> k \<and> k * l < 2 ^ 53" for k
    using page [of k] that by simp
  have "length M \<le> length (users s)" unfolding M by (simp add: le_trans [OF length_filter_le])
  with size l(2) have bound: "length M + l < 2 ^ 53" by simp
  have each: "pageUsers (?get k) = take l (drop ((k - 1) * l) ys)"
    if "k \<in> set [1..<Suc ?n]" for k
  proof -
    from that have k: "1 \<le> k" "k \<le> ?n" by (simp_all del: upt_Suc)
    from k(2) have "k * l \<le> ?n * l" by (rule mult_le_mono1)
    also have "\<dots> \<le> length M + l - 1" by (rule div_times_less_eq_dividend)
    finally have "k * l < 2 ^ 53" using bound l(1) by linarith
    with k(1) show ?thesis by (simp only: page pageUsers.simps userPage.simps)
  qed
  have "map (\<lambda>k. pageUsers (?get k)) [1..<Suc ?n] =
        map (\<lambda>k. take l (drop ((k - 1) * l) ys)) [1..<Suc ?n]"
    using each by (rule map_cong [OF refl])
  then have "concat (map (\<lambda>k. pageUsers (?get k)) [1..<Suc ?n]) = take (?n * l) ys"
    by (simp only: concat_pages)
  also have "\<dots> = ys"
  proof -
    have "length ys \<le> ?n * l"
      using pages_cover [of l "length M"] l(1) by (simp add: len)
    then show ?thesis by (rule take_all)
  qed
  finally have "concat (map (\<lambda>k. pageUsers (?get k)) [1..<Suc ?n]) = ys" .
  with ys perm count show ?thesis by blast
qed


lemmas listing_defs =
  compareUsers_def lessThan'_def greaterThan'_def sampleHost_def objectAt_def sampleEntity_def

lemma sampleStore_matching:
  "filter (\<lambda>a. isUser (objectAt (heap sampleStore) a)) (map snd (users sampleStore)) = [0, 1, 2]"
  by (simp add: sampleStore_def objectAt_def sampleEntity_def validator_defs)

lemma sampleStore_sorted:
  "sortBy' (compareUsers sampleHost (heap sampleStore) ''createdAt'' Desc) [0, 1, 2] =
     Inr [1, 2, 0]"
  by (simp add: sampleStore_def listing_defs Let_def)

lemma sampleStore5_matching:
  "filter (\<lambda>a. isUser (objectAt (heap sampleStore5) a)) (map snd (users sampleStore5)) =
     [0, 1, 2, 3, 4]"
  by (simp add: sampleStore5_def objectAt_def sampleEntity_def validator_defs)

lemma sampleStore5_sorted:
  "sortBy' (compareUsers sampleHost (heap sampleStore5) ''createdAt'' Desc) [0, 1, 2, 3, 4] =
     Inr [4, 3, 2, 1, 0]"
  by (simp add: sampleStore5_def listing_defs Let_def)

lemma sampleStoreOpaque_matching:
  "filter (\<lambda>a. isUser (objectAt (heap sampleStoreOpaque) a)) (map snd (users sampleStoreOpaque))
     = [0, 1]"
  by (simp add: sampleStoreOpaque_def objectAt_def sampleEntity_def validator_defs)

lemma sampleStoreOpaque_sorted:
  "sortBy' (compareUsers sampleHost (heap sampleStoreOpaque) ''metadata'' Desc) [0, 1] =
     Inl ''Cannot convert object to primitive value''"
  by (simp add: sampleStoreOpaque_def listing_defs Let_def)

lemma getUsers_run:
  assumes "\<not> rejected pg" "\<not> rejected lm"
    and "filter (\<lambda>a. isUser (objectAt (heap s) a)) (map snd (users s)) = M"
    and "stringOr sb ''createdAt'' = key" and "sortOrderOr so Desc = ord"
    and "numberOr pg (Fin 1) = p" and "numberOr lm (Fin 10) = l"
  shows "sortBy' (compareUsers H (heap s) key ord) M = Inl m \<Longrightarrow>
           getUsers H pg lm sb so s = Failure (BusinessError ''QUERY_ERROR'' m)"
    and "sortBy' (compareUsers H (heap s) key ord) M = Inr ys \<Longrightarrow>
         numMul (numSub p (Fin 1)) l = a \<Longrightarrow> numAdd a l = b \<Longrightarrow> slice ys a b = us \<Longrightarrow>
         length ys = n \<Longrightarrow>
           getUsers H pg lm sb so s =
             Success \<lparr>users' = us, total' = n, page = p, limit = l\<rparr>"
  unfolding getUsers_accepted [OF assms(1,2)] assms(3-7) by simp_all

lemma getUsers_query_error:
  "getUsers sampleHost None None (Some ''metadata'') None sampleStoreOpaque =
     Failure (BusinessError ''QUERY_ERROR'' ''Cannot convert object to primitive value'')"
  by (rule getUsers_run(1) [OF _ _ sampleStoreOpaque_matching _ _ refl refl
        sampleStoreOpaque_sorted]) simp_all

theorem getUsers_rejects_witness:
  "rejected (Some (Fin (- 1))) \<and>
   getUsers sampleHost (Some (Fin (- 1))) None None None sampleStore =
     Failure (ValidationError ''pagination'' ''Page and limit must be positive numbers''
                ''INVALID_PAGINATION'') \<and>
   \<not> rejected None \<and>
   getUsers sampleHost None None (Some ''metadata'') None sampleStoreOpaque =
     Failure (BusinessError ''QUERY_ERROR'' ''Cannot convert object to primitive value'')"
proof -
  have r: "rejected (Some (Fin (- 1)))" by simp
  from getUsers_rejects [OF refl, of sampleHost "Some (Fin (- 1))" None None None sampleStore,
      THEN conjunct1] r
  show ?thesis by (simp add: getUsers_query_error)
qed

lemma slice_samples:
  "slice [1, 2, 0 :: nat] (Fin 0) (Fin 10) = [1, 2, 0]"
  "slice [1, 2, 0 :: nat] (Fin 0) (Fin 101) = [1, 2, 0]"
  "slice [4, 3, 2, 1, 0 :: nat] (Fin (5 / 2)) (Fin 5) = [2, 1, 0]"
  by (simp_all add: slice_def toIntegerOrInfinity_def)

text \<open>
  Claim C5 as stated fails: page 0 is served as page 1, and limit 101 is accepted.
\<close>

theorem getUsers_page_zero_limit_101:
  "getUsers sampleHost (Some (Fin 0)) None None None sampleStore =
     Success \<lparr>users' = [1, 2, 0], total' = 3, page = Fin 1, limit = Fin 10\<rparr> \<and>
   getUsers sampleHost None (Some (Fin 101)) None None sampleStore =
     Success \<lparr>users' = [1, 2, 0], total' = 3, page = Fin 1, limit = Fin 101\<rparr>"
proof
  have zero: "numMul (numSub (Fin 1) (Fin 1)) (Fin q) = Fin 0" for q
    by (simp add: numSub_def toDouble_def)
  have ends: "numAdd (Fin 0) (Fin 10) = Fin 10" "numAdd (Fin 0) (Fin 101) = Fin 101"
    by (simp_all add: toDouble_numeral)
  show "getUsers sampleHost (Some (Fin 0)) None None None sampleStore =
     Success \<lparr>users' = [1, 2, 0], total' = 3, page = Fin 1, limit = Fin 10\<rparr>"
    by (rule getUsers_run(2) [OF _ _ sampleStore_matching _ _ _ _ sampleStore_sorted zero
          ends(1) slice_samples(1)]) simp_all
  show "getUsers sampleHost None (Some (Fin 101)) None None sampleStore =
     Success \<lparr>users' = [1, 2, 0], total' = 3, page = Fin 1, limit = Fin 101\<rparr>"
    by (rule getUsers_run(2) [OF _ _ sampleStore_matching _ _ _ _ sampleStore_sorted zero
          ends(2) slice_samples(2)]) simp_all
qed

theorem getUsers_pagination_witness:
  "(1::nat) \<le> 2 \<and> (2::nat) \<le> 100 \<and> length (users sampleStore) < 2 ^ 52 \<and>
   list_all (\<lambda>a. convError sampleHost (getProp (objectAt (heap sampleStore) a) ''createdAt'')
                 = None) [0, 1, 2] \<and>
   concat (map (\<lambda>k. pageUsers
             (getUsers sampleHost (Some (Fin (of_nat k))) (Some (Fin (of_nat (2::nat)))) None
                None sampleStore)) [1, 2]) = [1, 2, 0]"
proof -
  have a: "(1::nat) \<le> 2" and b: "(2::nat) \<le> 100" by simp_all
  have size: "length (users sampleStore) < 2 ^ 52" by (simp add: sampleStore_def)
  have quiet: "list_all (\<lambda>a. convError sampleHost
      (getProp (objectAt (heap sampleStore) a) ''createdAt'') = None) [0, 1, 2]"
    by (simp add: sampleStore_def listing_defs)
  have quiet': "2 \<le> length [0, 1, 2 :: nat] \<longrightarrow>
      (\<forall>a\<in>set [0, 1, 2]. convError sampleHost
         (getProp (objectAt (heap sampleStore) a) (stringOr None ''createdAt'')) = None)"
    using quiet unfolding list_all_iff stringOr.simps by (rule impI)
  have pages: "[1..<Suc ((length [0, 1, 2::nat] + 2 - 1) div 2)] = [1, 2]"
    by (simp add: upt_rec)
  from getUsers_pagination [OF a b sampleStore_matching [symmetric] size quiet', of None]
  obtain ys where
    "sortBy' (compareUsers sampleHost (heap sampleStore) (stringOr None ''createdAt'')
       (sortOrderOr None Desc)) [0, 1, 2] = Inr ys"
    "concat (map (\<lambda>k. pageUsers
       (getUsers sampleHost (Some (Fin (of_nat k))) (Some (Fin (of_nat (2::nat)))) None None
          sampleStore)) [1..<Suc ((length [0, 1, 2::nat] + 2 - 1) div 2)]) = ys"
    by blast
  then have "concat (map (\<lambda>k. pageUsers
       (getUsers sampleHost (Some (Fin (of_nat k))) (Some (Fin (of_nat (2::nat)))) None None
          sampleStore)) [1, 2]) = [1, 2, 0]"
    unfolding pages stringOr.simps sortOrderOr.simps sampleStore_sorted by simp
  with a b size quiet show ?thesis by blast
qed

text \<open>
  Claim C8 as stated fails for a limit that is not a whole number: \<open>slice\<close> truncates
  both indices, and page 2 of limit 2.5 on five users holds three of them.
\<close>

theorem getUsers_fractional_limit:
  "getUsers sampleHost (Some (Fin 2)) (Some (Fin (5 / 2))) None None sampleStore5 =
     Success \<lparr>users' = [2, 1, 0], total' = 5, page = Fin 2, limit = Fin (5 / 2)\<rparr>"
proof -
  have start: "numMul (numSub (Fin 2) (Fin 1)) (Fin (5 / 2)) = Fin (5 / 2)"
    by (simp add: numSub_def toDouble_one toDouble_five_halves)
  have stop: "numAdd (Fin (5 / 2)) (Fin (5 / 2)) = Fin 5"
    by (simp add: toDouble_numeral)
  show ?thesis
    by (rule getUsers_run(2) [OF _ _ sampleStore5_matching _ _ _ _ sampleStore5_sorted start
          stop slice_samples(3)]) simp_all
qed

text \<open>
  Rounding at work: page \<open>1.2\<close> (the double nearest to it) with limit \<open>2.5\<close> ends its slice
  at \<open>0.4999999999999999 + 2.5\<close>, which rounds to 3, and the page holds three users.
\<close>

lemma ceiling_rat_numeral [simp]:
  "\<lceil>numeral a / numeral b :: rat\<rceil> = - (- numeral a div numeral b)"
  using ceiling_divide_eq_div [of "numeral a" "numeral b", where ?'a = rat] by simp

lemma double_steps:
  "numSub (Fin (5404319552844595 / 4503599627370496)) (Fin 1) =
     Fin (900719925474099 / 4503599627370496)"
  "numMul (Fin (900719925474099 / 4503599627370496)) (Fin (5 / 2)) =
     Fin (4503599627370495 / 9007199254740992)"
  "numAdd (Fin (4503599627370495 / 9007199254740992)) (Fin (5 / 2)) = Fin 3"
  by (simp_all add: toDouble_def exponentOf_def ceilLog2_def pow2_def roundHalfEven_def Let_def
      floorLog2_small floorLog2_step numSub_def)

lemma getUsers_rounds_to_three:
  "getUsers sampleHost (Some (Fin (5404319552844595 / 4503599627370496))) (Some (Fin (5 / 2)))
     None None sampleStore5 =
     Success \<lparr>users' = [4, 3, 2], total' = 5,
              page = Fin (5404319552844595 / 4503599627370496), limit = Fin (5 / 2)\<rparr>"
proof -
  have cut: "slice [4, 3, 2, 1, 0 :: nat] (Fin (4503599627370495 / 9007199254740992)) (Fin 3)
      = [4, 3, 2]"
    by (simp add: slice_def toIntegerOrInfinity_def)
  have start: "numMul (numSub (Fin (5404319552844595 / 4503599627370496)) (Fin 1))
      (Fin (5 / 2)) = Fin (4503599627370495 / 9007199254740992)"
    by (simp only: double_steps)
  show ?thesis
    by (rule getUsers_run(2) [OF _ _ sampleStore5_matching _ _ _ _ sampleStore5_sorted
          start double_steps(3) cut]) simp_all
qed

end
